theory Spec2Isabelle
  imports Complex_Main "HOL-Library.Word" "HOL-Library.Log_Nat"
begin

section \<open>AwesomeImager: the acquisition-to-disk pipeline of CameraInterfaces.py\<close>

text \<open>
  A shallow embedding of \<^verbatim>\<open>src/CameraInterfaces.py\<close> (a Python 2 module: it imports
  \<^verbatim>\<open>Queue\<close>, and has no \<^verbatim>\<open>from __future__ import division\<close>, so \<^verbatim>\<open>/\<close> on two
  integers is floor division).  The classes modelled are \<^verbatim>\<open>BaseWriter\<close>
  (\<^verbatim>\<open>__init__\<close>, \<^verbatim>\<open>_lut_8bit\<close>, \<^verbatim>\<open>convert_to_8bit\<close>, \<^verbatim>\<open>save_metadata\<close>),
  \<^verbatim>\<open>WriterHamamatsu\<close> (\<^verbatim>\<open>__init__\<close>, \<^verbatim>\<open>run\<close>) and \<^verbatim>\<open>AcquireHamamatsu.run\<close>.
\<close>

subsection \<open>Exceptions\<close>

datatype py_exception =
    AssertionError
  | KeyError string
  | ValueError
  | TypeError
  | IndexError
  | ZeroDivisionError
  | OverflowError
  | IOError
  | UnicodeDecodeError
  | KeyboardInterrupt

text \<open>What became of a call: it returned, it raised, or it waits on an empty queue for ever.\<close>

datatype 'a outcome = Returned 'a | Raised py_exception 'a | Blocked 'a

fun final :: "'a outcome \<Rightarrow> 'a" where
  "final (Returned s) = s"
| "final (Raised e s) = s"
| "final (Blocked s) = s"

subsection \<open>numpy arrays in a store\<close>

text \<open>
  A camera sample is an unsigned 16-bit integer (\<^verbatim>\<open>np.uint16\<close>), a stored sample an
  unsigned 8-bit one (\<^verbatim>\<open>np.uint8\<close>).  Arrays are objects that the code mutates in place
  (\<^verbatim>\<open>out=image\<close>, \<^verbatim>\<open>image -= ...\<close>), so they live in a store: one heap per element type,
  an array reference being its index in the heap.  A new array is appended, hence its
  reference is fresh.  The store also keeps the \<^verbatim>\<open>RuntimeWarning\<close>s that numpy has issued.
  An image is kept in row-major order; its shape plays no part in an element-wise
  operation.
\<close>

type_synonym u16 = "16 word"
type_synonym u8 = "8 word"

datatype np_warning = DivideByZero

record store =
  u16_arrays :: "u16 list list"
  u8_arrays :: "u8 list list"
  np_warnings :: "np_warning list"

definition empty_store :: store where
  "empty_store = \<lparr>u16_arrays = [], u8_arrays = [], np_warnings = []\<rparr>"

text \<open>\<^verbatim>\<open>np.arange(n, dtype=np.uint16)\<close>: a new array holding 0, 1, ..., n - 1.\<close>

definition np_arange :: "nat \<Rightarrow> store \<Rightarrow> nat \<times> store" where
  "np_arange n s =
     (length (u16_arrays s), s\<lparr>u16_arrays := u16_arrays s @ [map of_nat [0..<n]]\<rparr>)"

text \<open>
  \<^verbatim>\<open>image.clip(a_min, a_max, out=image)\<close>, which numpy documents as
  \<^verbatim>\<open>minimum(a_max, maximum(image, a_min))\<close>, written back into \<^verbatim>\<open>image\<close>.
\<close>

definition clip_sample :: "u16 \<Rightarrow> u16 \<Rightarrow> u16 \<Rightarrow> u16" where
  "clip_sample a_min a_max x = min a_max (max x a_min)"

definition clip_out :: "nat \<Rightarrow> u16 \<Rightarrow> u16 \<Rightarrow> store \<Rightarrow> store" where
  "clip_out img a_min a_max s =
     s\<lparr>u16_arrays := (u16_arrays s)[img := map (clip_sample a_min a_max) (u16_arrays s ! img)]\<rparr>"

text \<open>\<^verbatim>\<open>image -= k\<close>: in place, in 16-bit arithmetic (it wraps around).\<close>

definition isub :: "nat \<Rightarrow> u16 \<Rightarrow> store \<Rightarrow> store" where
  "isub img k s =
     s\<lparr>u16_arrays := (u16_arrays s)[img := map (\<lambda>x. x - k) (u16_arrays s ! img)]\<rparr>"

text \<open>
  \<^verbatim>\<open>np.floor_divide(image, d, out=image, casting='unsafe')\<close> for a Python integer \<^verbatim>\<open>d\<close>.
  Integer division by zero does not raise in numpy: the quotient is 0 and a
  divide-by-zero \<^verbatim>\<open>RuntimeWarning\<close> is issued.  Otherwise the quotient is rounded down
  and cast back to 16 bits.
\<close>

definition floor_divide_sample :: "int \<Rightarrow> u16 \<Rightarrow> u16" where
  "floor_divide_sample d x = (if d = 0 then 0 else word_of_int (uint x div d))"

definition floor_divide_out :: "nat \<Rightarrow> int \<Rightarrow> store \<Rightarrow> store" where
  "floor_divide_out img d s =
     s\<lparr>u16_arrays := (u16_arrays s)[img := map (floor_divide_sample d) (u16_arrays s ! img)],
       np_warnings := np_warnings s @ (if d = 0 \<and> u16_arrays s ! img \<noteq> [] then [DivideByZero] else [])\<rparr>"

text \<open>\<^verbatim>\<open>image.astype(np.uint8)\<close> on a 16-bit array: a new array of the low 8 bits.\<close>

definition astype_uint8 :: "nat \<Rightarrow> store \<Rightarrow> nat \<times> store" where
  "astype_uint8 img s =
     (length (u8_arrays s), s\<lparr>u8_arrays := u8_arrays s @ [map ucast (u16_arrays s ! img)]\<rparr>)"

text \<open>\<^verbatim>\<open>a.astype(np.uint8)\<close> on an 8-bit array: a copy.\<close>

definition astype_uint8_copy :: "nat \<Rightarrow> store \<Rightarrow> nat \<times> store" where
  "astype_uint8_copy a s =
     (length (u8_arrays s), s\<lparr>u8_arrays := u8_arrays s @ [u8_arrays s ! a]\<rparr>)"

text \<open>
  \<^verbatim>\<open>np.take(lut, image)\<close> for an 8-bit table and a 16-bit index array: a new array of
  the table's entries; an index past the table's end raises \<^verbatim>\<open>IndexError\<close>.
\<close>

definition np_take :: "nat \<Rightarrow> nat \<Rightarrow> store \<Rightarrow> py_exception + nat \<times> store" where
  "np_take lut img s =
     (if list_all (\<lambda>i. unat i < length (u8_arrays s ! lut)) (u16_arrays s ! img)
      then Inr (length (u8_arrays s),
                s\<lparr>u8_arrays := u8_arrays s @ [map (\<lambda>i. (u8_arrays s ! lut) ! unat i) (u16_arrays s ! img)]\<rparr>)
      else Inl IndexError)"

subsection \<open>BaseWriter: the bit-depth conversion\<close>

text \<open>
  A level window is a pair of sample values, as the default \<^verbatim>\<open>levels=(0, 65535)\<close> is.
  The divisor \<^verbatim>\<open>(self.levels[1] - self.levels[0] + 1) / 256\<close> is computed on Python
  integers, which do not wrap, and \<^verbatim>\<open>/\<close> rounds down.
\<close>

type_synonym level_window = "u16 \<times> u16"

definition lut_8bit :: "level_window \<Rightarrow> nat \<Rightarrow> store \<Rightarrow> nat \<times> store" where
  "lut_8bit lv img s0 =
     (let s1 = clip_out img (fst lv) (snd lv) s0;
          s2 = isub img (fst lv) s1;
          s3 = floor_divide_out img ((uint (snd lv) - uint (fst lv) + 1) div 256) s2
      in astype_uint8 img s3)"

definition convert_to_8bit :: "level_window \<Rightarrow> nat \<Rightarrow> store \<Rightarrow> py_exception + nat \<times> store" where
  "convert_to_8bit lv img s0 =
     (let (lut16, s1) = np_arange 65536 s0;
          (lut, s2) = lut_8bit lv lut16 s1
      in case np_take lut img s2 of
           Inl e \<Rightarrow> Inl e
         | Inr (taken, s3) \<Rightarrow> Inr (astype_uint8_copy taken s3))"

text \<open>
  The lookup table that \<^verbatim>\<open>convert_to_8bit\<close> holds in \<^verbatim>\<open>lut\<close> after
  \<^verbatim>\<open>lut = self._lut_8bit(lut)\<close>, read out of the store.
\<close>

definition lookup_table :: "level_window \<Rightarrow> u8 list" where
  "lookup_table lv =
     (let (lut16, s1) = np_arange 65536 empty_store;
          (lut, s2) = lut_8bit lv lut16 s1
      in u8_arrays s2 ! lut)"

text \<open>The warnings that building the table issues.\<close>

definition lookup_table_warnings :: "level_window \<Rightarrow> np_warning list" where
  "lookup_table_warnings lv =
     (let (lut16, s1) = np_arange 65536 empty_store;
          (lut, s2) = lut_8bit lv lut16 s1
      in np_warnings s2)"

text \<open>The converted image of a frame, as a value: the conversion run on a store that holds the frame.\<close>

definition converted :: "level_window \<Rightarrow> u16 list \<Rightarrow> py_exception + u8 list" where
  "converted lv frame =
     (case convert_to_8bit lv 0 (empty_store\<lparr>u16_arrays := [frame]\<rparr>) of
        Inl e \<Rightarrow> Inl e
      | Inr (r, s) \<Rightarrow> Inr (u8_arrays s ! r))"

text \<open>
  The contents of the 16-bit table once \<^verbatim>\<open>_lut_8bit\<close> has clipped, shifted and divided it
  in place (used to state what the store holds afterwards).
\<close>

definition table16 :: "level_window \<Rightarrow> u16 list" where
  "table16 lv = map (\<lambda>n. floor_divide_sample ((uint (snd lv) - uint (fst lv) + 1) div 256)
                          (clip_sample (fst lv) (snd lv) (of_nat n) - fst lv)) [0..<65536]"

subsection \<open>Python numbers and metadata values\<close>

text \<open>
  A Python \<^verbatim>\<open>float\<close> is an IEEE 754 binary64 number.  A finite one is kept as the
  rational it denotes; the negative zero, the infinities and the NaN are values of
  their own.
\<close>

datatype pyfloat = Finite rat | NegZero | PosInf | NegInf | NaN

definition pow2 :: "int \<Rightarrow> rat" where
  "pow2 k = (if 0 \<le> k then 2 ^ nat k else 1 / 2 ^ nat (- k))"

text \<open>For \<open>a > 0\<close>, the exponent \<open>e\<close> with \<open>2\<^sup>e \<le> a < 2\<^sup>e\<^sup>+\<^sup>1\<close>.\<close>

definition ilog2 :: "rat \<Rightarrow> int" where
  "ilog2 a =
     (if 1 \<le> a then int (floorlog 2 (nat \<lfloor>a\<rfloor>)) - 1
      else - int (floorlog 2 (nat (\<lceil>1 / a\<rceil> - 1))))"

definition round_half_even :: "rat \<Rightarrow> int" where
  "round_half_even x =
     (let f = \<lfloor>x\<rfloor>; r = x - of_int f
      in if r < 1 / 2 then f
         else if 1 / 2 < r then f + 1
         else if even f then f else f + 1)"

text \<open>
  Rounding a rational to binary64, to nearest and ties to even: 53 significant bits,
  exponents from -1022 (below it the spacing stays \<open>2\<^sup>-\<^sup>1\<^sup>0\<^sup>7\<^sup>4\<close>: subnormal numbers), and
  overflow to an infinity from \<open>2\<^sup>1\<^sup>0\<^sup>2\<^sup>4\<close> on.
\<close>

definition round_to_double :: "rat \<Rightarrow> pyfloat" where
  "round_to_double x =
     (if x = 0 then Finite 0
      else let a = \<bar>x\<bar>;
               e = max (ilog2 a) (- 1022);
               ulp = pow2 (e - 52);
               r = of_int (round_half_even (a / ulp)) * ulp
           in if pow2 1024 \<le> r then (if 0 < x then PosInf else NegInf)
              else if r = 0 then (if 0 < x then Finite 0 else NegZero)
              else Finite (if 0 < x then r else - r))"

text \<open>A numeric value is an \<^verbatim>\<open>int\<close> (unbounded) or a \<^verbatim>\<open>float\<close>.\<close>

datatype pynum = PyInt int | PyFloat pyfloat

text \<open>
  The values a metadata dictionary holds: a number, a string, a tuple (or list) of
  numbers, or \<^verbatim>\<open>None\<close>.
\<close>

datatype pyval = Num pynum | Str string | Tuple "pynum list" | NoneVal

text \<open>
  \<^verbatim>\<open>1/v\<close> in Python 2: floor division on an \<^verbatim>\<open>int\<close>, IEEE division on a \<^verbatim>\<open>float\<close>
  (the 1 is converted to 1.0); a zero divisor raises \<^verbatim>\<open>ZeroDivisionError\<close>, and a
  value that is not a number raises \<^verbatim>\<open>TypeError\<close>.
\<close>

fun float_reciprocal :: "pyfloat \<Rightarrow> py_exception + pyfloat" where
  "float_reciprocal (Finite x) = (if x = 0 then Inl ZeroDivisionError else Inr (round_to_double (1 / x)))"
| "float_reciprocal NegZero = Inl ZeroDivisionError"
| "float_reciprocal PosInf = Inr (Finite 0)"
| "float_reciprocal NegInf = Inr NegZero"
| "float_reciprocal NaN = Inr NaN"

fun one_over :: "pyval \<Rightarrow> py_exception + pyval" where
  "one_over (Num (PyInt n)) = (if n = 0 then Inl ZeroDivisionError else Inr (Num (PyInt (1 div n))))"
| "one_over (Num (PyFloat x)) =
     (case float_reciprocal x of Inl e \<Rightarrow> Inl e | Inr y \<Rightarrow> Inr (Num (PyFloat y)))"
| "one_over (Str s) = Inl TypeError"
| "one_over (Tuple xs) = Inl TypeError"
| "one_over NoneVal = Inl TypeError"

text \<open>
  \<^verbatim>\<open>int(x)\<close> for a number: a \<^verbatim>\<open>float\<close> is truncated towards zero; an infinity raises
  \<^verbatim>\<open>OverflowError\<close> and a NaN \<^verbatim>\<open>ValueError\<close>.
\<close>

fun int_of_num :: "pynum \<Rightarrow> py_exception + int" where
  "int_of_num (PyInt n) = Inr n"
| "int_of_num (PyFloat (Finite x)) = Inr (if 0 \<le> x then \<lfloor>x\<rfloor> else \<lceil>x\<rceil>)"
| "int_of_num (PyFloat NegZero) = Inr 0"
| "int_of_num (PyFloat PosInf) = Inl OverflowError"
| "int_of_num (PyFloat NegInf) = Inl OverflowError"
| "int_of_num (PyFloat NaN) = Inl ValueError"

definition is_digit :: "char \<Rightarrow> bool" where
  "is_digit c = (48 \<le> (of_char c :: nat) \<and> (of_char c :: nat) \<le> 57)"

text \<open>
  \<^verbatim>\<open>int(v[i])\<close> for \<open>i\<close> = 0 or 1.  A number and \<^verbatim>\<open>None\<close> cannot be indexed
  (\<^verbatim>\<open>TypeError\<close>); an index past the end raises \<^verbatim>\<open>IndexError\<close>; the item of a string is
  its one-character string, which \<^verbatim>\<open>int\<close> reads when it is a decimal digit and rejects
  with \<^verbatim>\<open>ValueError\<close> otherwise.
\<close>

fun int_of_item :: "pyval \<Rightarrow> nat \<Rightarrow> py_exception + int" where
  "int_of_item (Num n) i = Inl TypeError"
| "int_of_item NoneVal i = Inl TypeError"
| "int_of_item (Tuple xs) i = (if i < length xs then int_of_num (xs ! i) else Inl IndexError)"
| "int_of_item (Str s) i =
     (if i < length s
      then (if is_digit (s ! i) then Inr (int (of_char (s ! i)) - 48) else Inl ValueError)
      else Inl IndexError)"

text \<open>
  \<^verbatim>\<open>s.decode('utf-8')\<close> on a byte string, as far as it returns or raises
  \<^verbatim>\<open>UnicodeDecodeError\<close>: the decoder of Python 2 reads sequences of one to four bytes,
  refuses a start byte of 80..C1 or F5..FF, a byte that is not a continuation byte
  (80..BF) where one is due, an over-long form (E0 before 80..9F, F0 before 80..8F) and a
  code point past 10FFFF (F4 before 90..BF); it lets the encoded surrogates pass.
\<close>

definition continuation :: "char \<Rightarrow> bool" where
  "continuation c = (128 \<le> (of_char c :: nat) \<and> (of_char c :: nat) \<le> 191)"

fun utf8_decodable :: "string \<Rightarrow> bool" where
  "utf8_decodable [] = True"
| "utf8_decodable (c # cs) =
     (let b = (of_char c :: nat) in
      if b < 128 then utf8_decodable cs
      else if 194 \<le> b \<and> b \<le> 223
      then (case cs of
              c1 # r \<Rightarrow> continuation c1 \<and> utf8_decodable r
            | _ \<Rightarrow> False)
      else if 224 \<le> b \<and> b \<le> 239
      then (case cs of
              c1 # c2 # r \<Rightarrow>
                continuation c1 \<and> continuation c2 \<and>
                (if b = 224 then 160 \<le> (of_char c1 :: nat) else True) \<and> utf8_decodable r
            | _ \<Rightarrow> False)
      else if 240 \<le> b \<and> b \<le> 244
      then (case cs of
              c1 # c2 # c3 # r \<Rightarrow>
                continuation c1 \<and> continuation c2 \<and> continuation c3 \<and>
                (if b = 240 then 144 \<le> (of_char c1 :: nat) else True) \<and>
                (if b = 244 then (of_char c1 :: nat) \<le> 143 else True) \<and> utf8_decodable r
            | _ \<Rightarrow> False)
      else False)"

text \<open>
  Whether \<^verbatim>\<open>json.dump\<close> can encode a value.  A number, \<^verbatim>\<open>None\<close> and a tuple of numbers
  always are (a NaN or an infinity is written as \<^verbatim>\<open>NaN\<close> or \<^verbatim>\<open>Infinity\<close>); a byte string
  with a byte past 7F is decoded as UTF-8 first, and \<^verbatim>\<open>UnicodeDecodeError\<close> is raised when
  that fails.
\<close>

fun json_encodable :: "pyval \<Rightarrow> bool" where
  "json_encodable (Str s) = utf8_decodable s"
| "json_encodable (Num n) = True"
| "json_encodable (Tuple xs) = True"
| "json_encodable NoneVal = True"


subsection \<open>The clock\<close>

text \<open>
  \<^verbatim>\<open>datetime.datetime.fromtimestamp(time.time())\<close> is the local time, read from the
  environment; a \<^verbatim>\<open>datetime\<close> has a year from 1 to 9999, and \<^verbatim>\<open>fromtimestamp\<close> raises
  \<^verbatim>\<open>ValueError\<close> for a time outside that range.  \<^verbatim>\<open>strftime\<close> writes the year with four
  digits and every other field with two; Python 2 refuses a year before 1900 with
  \<^verbatim>\<open>ValueError\<close>.
\<close>

record datetime =
  year :: nat
  month :: nat
  day :: nat
  hour :: nat
  minute :: nat
  second :: nat

definition fromtimestamp :: "datetime \<Rightarrow> py_exception + datetime" where
  "fromtimestamp now = (if 1 \<le> year now \<and> year now \<le> 9999 then Inr now else Inl ValueError)"

definition digit :: "nat \<Rightarrow> char" where
  "digit d = char_of (48 + d mod 10)"

definition two_digits :: "nat \<Rightarrow> string" where
  "two_digits n = [digit (n div 10), digit n]"

definition four_digits :: "nat \<Rightarrow> string" where
  "four_digits n = [digit (n div 1000), digit (n div 100), digit (n div 10), digit n]"

definition strftime_Ymd :: "datetime \<Rightarrow> py_exception + string" where
  "strftime_Ymd d =
     (if year d < 1900 then Inl ValueError
      else Inr (four_digits (year d) @ two_digits (month d) @ two_digits (day d)))"

definition strftime_HMS :: "datetime \<Rightarrow> py_exception + string" where
  "strftime_HMS d =
     (if year d < 1900 then Inl ValueError
      else Inr (two_digits (hour d) @ two_digits (minute d) @ two_digits (second d)))"

subsection \<open>The surroundings of the writer\<close>

text \<open>
  What the surroundings do to a writer.  The calls into the libraries that touch the
  screen or the disk can fail for reasons outside the program, so what each of them
  raises, if anything, is given here:
  \<^item> \<open>TiffWriter_raises\<close>: \<^verbatim>\<open>tifffile.TiffWriter(filename, bigtiff=True, append=True)\<close>, by
    the file name;
  \<^item> \<open>BasePreview_raises\<close>: \<^verbatim>\<open>BasePreview.__init__\<close> and \<^verbatim>\<open>self.iv.setLevels\<close>;
  \<^item> \<open>setImage_raises\<close>: whether \<^verbatim>\<open>self.iv.setImage\<close> raises an \<^verbatim>\<open>Exception\<close>, in the pass of
    the loop that makes the \<open>n\<close>-th call of \<^verbatim>\<open>q.get()\<close> (counted from 0);
  \<^item> \<open>save_raises\<close>: \<^verbatim>\<open>self.tiff_writer.save\<close> in that pass, for a compression level
    that tifffile accepts;
  \<^item> \<open>close_raises\<close>: \<^verbatim>\<open>self.tiff_writer.close()\<close>;
  \<^item> \<open>open_raises\<close>: \<^verbatim>\<open>open(json_file, 'w')\<close>, by the file name;
  \<^item> \<open>write_raises\<close>: the writes to the open file and its closing, by the file name.

  \<open>keyboard_interrupt\<close> says whether and where a \<^verbatim>\<open>KeyboardInterrupt\<close> arrives in the
  pass that makes the \<open>n\<close>-th call of \<^verbatim>\<open>q.get()\<close>: in \<^verbatim>\<open>q.get()\<close>, which is outside the
  \<^verbatim>\<open>try\<close>, or inside the \<^verbatim>\<open>try\<close> before or after \<^verbatim>\<open>tiff_writer.save\<close>.  \<open>clock\<close> is the
  time at which \<^verbatim>\<open>save_metadata\<close> reads it.
\<close>

datatype interrupt = NoInterrupt | InGet | BeforeSave | AfterSave

record environment =
  TiffWriter_raises :: "string \<Rightarrow> py_exception option"
  BasePreview_raises :: "py_exception option"
  setImage_raises :: "nat \<Rightarrow> bool"
  keyboard_interrupt :: "nat \<Rightarrow> interrupt"
  save_raises :: "nat \<Rightarrow> py_exception option"
  close_raises :: "py_exception option"
  open_raises :: "string \<Rightarrow> py_exception option"
  write_raises :: "string \<Rightarrow> py_exception option"
  clock :: datetime

subsection \<open>BaseWriter: construction and metadata\<close>

text \<open>
  An item of the queue is a frame (the array of grey values that the producer put)
  or a string (the producer's \<^verbatim>\<open>'done'\<close>).
\<close>

datatype queue_item = Frame "u16 list" | Text string

text \<open>The \<^verbatim>\<open>threading_queue\<close> argument: a \<^verbatim>\<open>Queue.Queue\<close> with its items, or some other object.\<close>

datatype queue_arg = AQueue "queue_item list" | NotAQueue

text \<open>
  What a file that \<^verbatim>\<open>save_metadata\<close> has opened for writing holds afterwards: the
  dictionary that \<^verbatim>\<open>json.dump\<close> has written, or, when the dump raised, only a part of it.
\<close>

datatype json_content = Dumped "string \<rightharpoonup> pyval" | Incomplete

text \<open>
  The writer object.  \<open>q\<close> holds the items still in the queue; \<open>tiff_pages\<close> and
  \<open>tiff_closed\<close> are the state of \<^verbatim>\<open>self.tiff_writer\<close> (the images saved through it, in
  order, and the number of calls of \<^verbatim>\<open>close\<close> that returned); \<open>json_files\<close> lists the files
  that \<^verbatim>\<open>save_metadata\<close> has opened for writing, each with its path and what it holds.
\<close>

record base_writer =
  q :: "queue_item list"
  filename :: string
  comp_lev :: int
  levels :: level_window
  metadata :: "string \<rightharpoonup> pyval"
  tiff_pages :: "u8 list list"
  tiff_closed :: nat
  json_files :: "(string \<times> json_content) list"

text \<open>
  \<^verbatim>\<open>BaseWriter.__init__\<close>: the assertion, the attributes, the frame rate, and last the
  \<^verbatim>\<open>TiffWriter\<close>.
\<close>

definition base_writer_init ::
  "environment \<Rightarrow> queue_arg \<Rightarrow> string \<Rightarrow> int \<Rightarrow> level_window \<Rightarrow> (string \<rightharpoonup> pyval)
     \<Rightarrow> py_exception + base_writer" where
  "base_writer_init env threading_queue fname compression_level lv md =
     (case threading_queue of
        NotAQueue \<Rightarrow> Inl AssertionError
      | AQueue items \<Rightarrow>
          let self = \<lparr>q = items, filename = fname, comp_lev = compression_level, levels = lv,
                      metadata = md, tiff_pages = [], tiff_closed = 0, json_files = []\<rparr>
          in case (if md ''framerate'' = None
                   then (case md ''exposure'' of
                           None \<Rightarrow> Inl (KeyError ''Exposure or Framerate must be specified to save as metadata'')
                         | Some exposure \<Rightarrow>
                             (case one_over exposure of
                                Inl e \<Rightarrow> Inl e
                              | Inr framerate \<Rightarrow> Inr (self\<lparr>metadata := md(''framerate'' \<mapsto> framerate)\<rparr>)))
                   else Inr self) of
               Inl e \<Rightarrow> Inl e
             | Inr self1 \<Rightarrow>
                 (case TiffWriter_raises env fname of
                    Some e \<Rightarrow> Inl e
                  | None \<Rightarrow> Inr self1))"

text \<open>\<^verbatim>\<open>self.metadata[k]\<close>: a missing key raises \<^verbatim>\<open>KeyError\<close>.\<close>

definition getitem :: "(string \<rightharpoonup> pyval) \<Rightarrow> string \<Rightarrow> py_exception + pyval" where
  "getitem d k = (case d k of None \<Rightarrow> Inl (KeyError k) | Some v \<Rightarrow> Inr v)"

text \<open>\<^verbatim>\<open>s.endswith(suffix)\<close> and \<^verbatim>\<open>s[:-n]\<close>.\<close>

definition endswith :: "string \<Rightarrow> string \<Rightarrow> bool" where
  "endswith s suffix = (length suffix \<le> length s \<and> drop (length s - length suffix) s = suffix)"

definition drop_last :: "nat \<Rightarrow> string \<Rightarrow> string" where
  "drop_last n s = take (length s - n) s"

text \<open>
  \<^verbatim>\<open>with open(json_file, 'w') as f: json.dump(meta, f)\<close>.  When \<^verbatim>\<open>open\<close> raises no file
  is made.  Once the file is open, \<^verbatim>\<open>json.dump\<close> writes the dictionary piece by piece; it
  raises when a write fails, and \<^verbatim>\<open>UnicodeDecodeError\<close> when it comes to a value that it
  cannot encode, and then the file is left with a part of the text.  \<open>vals\<close> are the
  values of the dictionary that are not constants of the program.
\<close>

definition json_dump ::
  "environment \<Rightarrow> string \<Rightarrow> pyval list \<Rightarrow> (string \<rightharpoonup> pyval) \<Rightarrow> 'a base_writer_scheme
     \<Rightarrow> 'a base_writer_scheme outcome" where
  "json_dump env json_file vals meta self =
     (case open_raises env json_file of
        Some e \<Rightarrow> Raised e self
      | None \<Rightarrow>
          (case write_raises env json_file of
             Some e \<Rightarrow> Raised e (self\<lparr>json_files := json_files self @ [(json_file, Incomplete)]\<rparr>)
           | None \<Rightarrow>
               if list_all json_encodable vals
               then Returned (self\<lparr>json_files := json_files self @ [(json_file, Dumped meta)]\<rparr>)
               else Raised UnicodeDecodeError
                      (self\<lparr>json_files := json_files self @ [(json_file, Incomplete)]\<rparr>)))"

text \<open>
  The name of the metadata file: the container's name with \<^verbatim>\<open>.tiff\<close> or \<^verbatim>\<open>.tif\<close>
  replaced by \<^verbatim>\<open>.json\<close>, and \<^verbatim>\<open>raise ValueError\<close> for any other name.
\<close>

definition json_file_name :: "string \<Rightarrow> py_exception + string" where
  "json_file_name fname =
     (if endswith fname ''.tiff'' then Inr (drop_last 5 fname @ ''.json'')
      else if endswith fname ''.tif'' then Inr (drop_last 4 fname @ ''.json'')
      else Inl ValueError)"

text \<open>
  \<^verbatim>\<open>save_metadata\<close>.  The time is read and formatted first; then the dictionary
  \<^verbatim>\<open>meta\<close> is built, its values in the order of the source; then the name of the file is
  derived; then the file is written.
\<close>

definition save_metadata ::
  "environment \<Rightarrow> string \<Rightarrow> 'a base_writer_scheme \<Rightarrow> 'a base_writer_scheme outcome" where
  "save_metadata env fname self =
     (case fromtimestamp (clock env) of Inl e \<Rightarrow> Raised e self | Inr date \<Rightarrow>
      case strftime_Ymd date of Inl e \<Rightarrow> Raised e self | Inr ymd \<Rightarrow>
      case strftime_HMS date of Inl e \<Rightarrow> Raised e self | Inr hms \<Rightarrow>
      case getitem (metadata self) ''framerate'' of Inl e \<Rightarrow> Raised e self | Inr framerate \<Rightarrow>
      case getitem (metadata self) ''version'' of Inl e \<Rightarrow> Raised e self | Inr version \<Rightarrow>
      case getitem (metadata self) ''stims'' of Inl e \<Rightarrow> Raised e self | Inr stims \<Rightarrow>
      case getitem (metadata self) ''levels'' of Inl e \<Rightarrow> Raised e self | Inr lv \<Rightarrow>
      case int_of_item lv 0 of Inl e \<Rightarrow> Raised e self | Inr level_min \<Rightarrow>
      case int_of_item lv 1 of Inl e \<Rightarrow> Raised e self | Inr level_max \<Rightarrow>
        let meta = [''framerate'' \<mapsto> framerate,
                    ''source'' \<mapsto> Str ''AwesomeImager'',
                    ''version'' \<mapsto> version,
                    ''date'' \<mapsto> Str ymd,
                    ''time'' \<mapsto> Str hms,
                    ''stims'' \<mapsto> stims,
                    ''level_min'' \<mapsto> Num (PyInt level_min),
                    ''level_max'' \<mapsto> Num (PyInt level_max)]
        in case json_file_name fname of
             Inl e \<Rightarrow> Raised e self
           | Inr json_file \<Rightarrow> json_dump env json_file [framerate, version, stims] meta self)"

subsection \<open>WriterHamamatsu: the consumer\<close>

text \<open>
  The writer adds the flag \<^verbatim>\<open>self.write\<close> (here \<open>write_flag\<close>).  \<open>img_num\<close> is the local counter of \<^verbatim>\<open>run\<close>;
  \<open>gets\<close> counts the calls of \<^verbatim>\<open>self.q.get()\<close>; \<open>printed\<close> is what \<^verbatim>\<open>run\<close> has printed.
\<close>

datatype printed = Error_displaying_an_image | Qsize_is nat | Wrote_ImgNum nat

record writer = base_writer +
  write_flag :: bool
  img_num :: nat
  gets :: nat
  printed :: "printed list"

text \<open>
  \<^verbatim>\<open>WriterHamamatsu.__init__\<close>: \<^verbatim>\<open>BaseWriter.__init__\<close>, then the preview window, then the
  flag.
\<close>

definition writer_init ::
  "environment \<Rightarrow> queue_arg \<Rightarrow> string \<Rightarrow> int \<Rightarrow> level_window \<Rightarrow> (string \<rightharpoonup> pyval)
     \<Rightarrow> py_exception + writer" where
  "writer_init env threading_queue fname compression_level lv md =
     (case base_writer_init env threading_queue fname compression_level lv md of
        Inl e \<Rightarrow> Inl e
      | Inr self \<Rightarrow>
          (case BasePreview_raises env of
             Some e \<Rightarrow> Inl e
           | None \<Rightarrow> Inr (base_writer.extend self (writer.fields True 0 0 []))))"

text \<open>\<^verbatim>\<open>WriterHamamatsu.end\<close>.\<close>

definition writer_end :: "writer \<Rightarrow> writer" where
  "writer_end self = self\<lparr>write_flag := False\<rparr>"

text \<open>\<^verbatim>\<open>np.reshape(cam_data, (2048, 2048))\<close>: \<^verbatim>\<open>ValueError\<close> unless the array has 2048 * 2048 elements.\<close>

definition reshape_2048 :: "u16 list \<Rightarrow> py_exception + u16 list" where
  "reshape_2048 cam_data = (if length cam_data = 2048 * 2048 then Inr cam_data else Inl ValueError)"

text \<open>
  \<^verbatim>\<open>self.tiff_writer.save(img, compress=self.comp_lev)\<close>, as far as it raises: tifffile
  raises \<^verbatim>\<open>ValueError\<close> for a compression level outside 0..9; otherwise the write may fail
  for a reason of the surroundings.
\<close>

definition tiff_save_raises :: "environment \<Rightarrow> nat \<Rightarrow> int \<Rightarrow> py_exception option" where
  "tiff_save_raises env n compress =
     (if compress < 0 \<or> 9 < compress then Some ValueError else save_raises env n)"

text \<open>
  The \<^verbatim>\<open>while self.write\<close> loop of \<^verbatim>\<open>run\<close>, by recursion on the items in the queue.
  \<^verbatim>\<open>self.q.not_empty\<close> is a condition variable, which is always true as a boolean, so
  the \<^verbatim>\<open>continue\<close> under it is never taken and \<^verbatim>\<open>q.get()\<close> waits when the queue is empty.
  The loop is left by \<^verbatim>\<open>break\<close> or by the flag (\<open>Returned\<close>), by an exception that no
  handler catches (\<open>Raised\<close>), or not at all (\<open>Blocked\<close>).  The only handler around the
  body is \<^verbatim>\<open>except KeyboardInterrupt: break\<close>.
\<close>

fun writer_loop :: "environment \<Rightarrow> queue_item list \<Rightarrow> writer \<Rightarrow> writer outcome" where
  "writer_loop env [] self =
     (if \<not> write_flag self then Returned (self\<lparr>q := []\<rparr>)
      else if keyboard_interrupt env (gets self) = InGet
      then Raised KeyboardInterrupt (self\<lparr>q := [], gets := gets self + 1\<rparr>)
      else Blocked (self\<lparr>q := [], gets := gets self + 1\<rparr>))"
| "writer_loop env (cam_data # rest) self =
     (if \<not> write_flag self then Returned (self\<lparr>q := cam_data # rest\<rparr>)
      else if keyboard_interrupt env (gets self) = InGet
      then Raised KeyboardInterrupt (self\<lparr>q := cam_data # rest, gets := gets self + 1\<rparr>)
      else
        let self1 = self\<lparr>q := rest, gets := gets self + 1\<rparr> in
        case cam_data of
          Text s \<Rightarrow> if s = ''done'' then Returned self1 else writer_loop env rest self1
        | Frame a \<Rightarrow>
            (case reshape_2048 a of
               Inl e \<Rightarrow> Raised e self1
             | Inr img \<Rightarrow>
                 let self2 = (if setImage_raises env (gets self)
                              then self1\<lparr>printed := printed self1 @ [Error_displaying_an_image]\<rparr>
                              else self1)
                 in if keyboard_interrupt env (gets self) = BeforeSave then Returned self2
                    else
                      (case converted (levels self2) img of
                         Inl e \<Rightarrow> Raised e self2
                       | Inr img8 \<Rightarrow>
                           (case tiff_save_raises env (gets self) (comp_lev self2) of
                              Some e \<Rightarrow>
                                if e = KeyboardInterrupt then Returned self2 else Raised e self2
                            | None \<Rightarrow>
                                let self3 = self2\<lparr>tiff_pages := tiff_pages self2 @ [img8]\<rparr>
                                in if keyboard_interrupt env (gets self) = AfterSave then Returned self3
                                   else writer_loop env rest
                                          (self3\<lparr>printed := printed self3 @
                                                     [Qsize_is (length rest), Wrote_ImgNum (img_num self3)],
                                                 img_num := img_num self3 + 1\<rparr>)))))"

text \<open>\<^verbatim>\<open>WriterHamamatsu.run\<close>: the loop, then \<^verbatim>\<open>tiff_writer.close()\<close>, then \<^verbatim>\<open>save_metadata\<close>.\<close>

definition run :: "environment \<Rightarrow> writer \<Rightarrow> writer outcome" where
  "run env self =
     (case writer_loop env (q self) (self\<lparr>img_num := 0\<rparr>) of
        Raised e self1 \<Rightarrow> Raised e self1
      | Blocked self1 \<Rightarrow> Blocked self1
      | Returned self1 \<Rightarrow>
          (case close_raises env of
             Some e \<Rightarrow> Raised e self1
           | None \<Rightarrow>
               save_metadata env (filename self1) (self1\<lparr>tiff_closed := tiff_closed self1 + 1\<rparr>)))"


subsection \<open>AcquireHamamatsu: the producer\<close>







subsection \<open>Concrete objects\<close>

text \<open>Inputs at which the theorems below are instantiated.\<close>

definition quiet :: environment where
  "quiet = \<lparr>TiffWriter_raises = (\<lambda>f. None), BasePreview_raises = None,
            setImage_raises = (\<lambda>n. False), keyboard_interrupt = (\<lambda>n. NoInterrupt),
            save_raises = (\<lambda>n. None), close_raises = None,
            open_raises = (\<lambda>f. None), write_raises = (\<lambda>f. None),
            clock = \<lparr>year = 2018, month = 3, day = 29, hour = 14, minute = 5, second = 9\<rparr>\<rparr>"

text \<open>The same surroundings, but a \<^verbatim>\<open>KeyboardInterrupt\<close> arrives while the first frame is shown.\<close>

definition interrupting :: environment where
  "interrupting = quiet\<lparr>keyboard_interrupt := (\<lambda>n. if n = 0 then BeforeSave else NoInterrupt)\<rparr>"

definition black_frame :: "u16 list" where
  "black_frame = replicate (2048 * 2048) 0"

definition white_frame :: "u16 list" where
  "white_frame = replicate (2048 * 2048) 65535"

definition full_metadata :: "string \<rightharpoonup> pyval" where
  "full_metadata = [''framerate'' \<mapsto> Num (PyFloat (Finite 20)),
                    ''version'' \<mapsto> Str ''0.1'',
                    ''stims'' \<mapsto> NoneVal,
                    ''levels'' \<mapsto> Tuple [PyInt 0, PyInt 65535]]"

text \<open>The dictionary that \<^verbatim>\<open>save_metadata\<close> builds from \<open>full_metadata\<close> at the time of \<open>quiet\<close>.\<close>

definition full_record :: "string \<rightharpoonup> pyval" where
  "full_record = [''framerate'' \<mapsto> Num (PyFloat (Finite 20)),
                  ''source'' \<mapsto> Str ''AwesomeImager'',
                  ''version'' \<mapsto> Str ''0.1'',
                  ''date'' \<mapsto> Str ''20180329'',
                  ''time'' \<mapsto> Str ''140509'',
                  ''stims'' \<mapsto> NoneVal,
                  ''level_min'' \<mapsto> Num (PyInt 0),
                  ''level_max'' \<mapsto> Num (PyInt 65535)]"

definition bare_metadata :: "string \<rightharpoonup> pyval" where
  "bare_metadata = [''framerate'' \<mapsto> Num (PyFloat (Finite 20))]"

definition a_writer :: "(string \<rightharpoonup> pyval) \<Rightarrow> queue_item list \<Rightarrow> writer" where
  "a_writer md items =
     \<lparr>q = items, filename = ''out.tiff'', comp_lev = 1, levels = (0, 65535), metadata = md,
      tiff_pages = [], tiff_closed = 0, json_files = [],
      write_flag = True, img_num = 0, gets = 0, printed = []\<rparr>"


subsection \<open>Auxiliary notions for the statements\<close>

text \<open>
  An item that the loop of \<^verbatim>\<open>WriterHamamatsu.run\<close> gets past: a frame of 2048 * 2048
  samples, or a string other than \<^verbatim>\<open>'done'\<close>.
\<close>

fun passable :: "queue_item \<Rightarrow> bool" where
  "passable (Frame a) = (length a = 2048 * 2048)"
| "passable (Text s) = (s \<noteq> ''done'')"

text \<open>The frames among the items of a queue, in order.\<close>

fun frames_of :: "queue_item list \<Rightarrow> u16 list list" where
  "frames_of [] = []"
| "frames_of (Frame a # rest) = a # frames_of rest"
| "frames_of (Text s # rest) = frames_of rest"


section \<open>The bit-depth conversion: proofs\<close>

subsection \<open>What the store holds after a conversion\<close>

lemma lut_8bit_fresh:
  "lut_8bit lv (length (u16_arrays s)) (snd (np_arange 65536 s)) =
     (length (u8_arrays s),
      s\<lparr>u16_arrays := u16_arrays s @ [table16 lv],
        u8_arrays := u8_arrays s @ [map ucast (table16 lv)],
        np_warnings := np_warnings s @
          (if (uint (snd lv) - uint (fst lv) + 1) div 256 = 0 then [DivideByZero] else [])\<rparr>)"
  by (simp add: lut_8bit_def np_arange_def clip_out_def isub_def floor_divide_out_def
      astype_uint8_def table16_def Let_def o_def)

lemma lookup_table_eq: "lookup_table lv = map ucast (table16 lv)"
  using lut_8bit_fresh [of lv empty_store]
  by (simp add: lookup_table_def np_arange_def empty_store_def)

lemma length_lookup_table: "length (lookup_table lv) = 65536"
  by (simp add: lookup_table_eq table16_def)

lemma convert_to_8bit_eq:
  assumes "img < length (u16_arrays s)"
  shows "convert_to_8bit lv img s =
     Inr (length (u8_arrays s) + 2,
      s\<lparr>u16_arrays := u16_arrays s @ [table16 lv],
        u8_arrays := u8_arrays s @ [lookup_table lv,
            map (\<lambda>i. lookup_table lv ! unat i) (u16_arrays s ! img),
            map (\<lambda>i. lookup_table lv ! unat i) (u16_arrays s ! img)],
        np_warnings := np_warnings s @
          (if (uint (snd lv) - uint (fst lv) + 1) div 256 = 0 then [DivideByZero] else [])\<rparr>)"
proof -
  have bound: "unat i < 65536" for i :: u16
    using unsigned_less [of i] by simp
  have len: "length (table16 lv) = 65536"
    by (simp add: table16_def)
  show ?thesis
    using assms lut_8bit_fresh [of lv s]
    by (simp add: convert_to_8bit_def np_arange_def np_take_def astype_uint8_copy_def
        lookup_table_eq len bound list_all_iff nth_append)
qed

subsection \<open>The table entries as integers\<close>

lemma uint_clip_sample:
  "uint (clip_sample lo hi x) = min (uint hi) (max (uint x) (uint lo))"
  by (simp add: clip_sample_def min_def max_def word_le_def)

lemma uint_of_nat_u16: "i < 65536 \<Longrightarrow> uint (of_nat i :: u16) = int i"
  by (simp add: uint_nat unat_of_nat)

lemma uint_floor_divide_sample:
  assumes "0 \<le> d"
  shows "uint (floor_divide_sample d x) = uint x div d"
proof (cases "d = 0")
  case True
  then show ?thesis by (simp add: floor_divide_sample_def)
next
  case False
  with assms have d: "1 \<le> d" by simp
  have "0 \<le> uint x div d" using d by (simp add: pos_imp_zdiv_nonneg_iff)
  moreover have "uint x div d \<le> uint x"
    using int_div_le_self [of "uint x" d] by (cases "uint x = 0") (simp_all add: less_le)
  moreover have "uint x < 65536" using uint_bounded [of x] by simp
  ultimately have "uint x div d mod 65536 = uint x div d" by simp
  then show ?thesis using False
    by (simp add: floor_divide_sample_def uint_word_of_int)
qed

lemma uint_lookup_entry:
  assumes "i < 65536" and "fst lv \<le> snd lv"
  shows "uint (lookup_table lv ! i) =
     ((min (uint (snd lv)) (max (int i) (uint (fst lv))) - uint (fst lv))
        div ((uint (snd lv) - uint (fst lv) + 1) div 256)) mod 256"
proof -
  let ?lo = "fst lv" and ?hi = "snd lv"
  let ?c = "clip_sample ?lo ?hi (of_nat i)"
  let ?d = "(uint ?hi - uint ?lo + 1) div 256"
  have le: "uint ?lo \<le> uint ?hi" using assms(2) by (simp add: word_le_def)
  have c: "uint ?c = min (uint ?hi) (max (int i) (uint ?lo))"
    using assms(1) by (simp add: uint_clip_sample uint_of_nat_u16)
  have "uint ?lo \<le> uint ?c" using le by (simp add: c)
  then have sub: "uint (?c - ?lo) = uint ?c - uint ?lo"
    by (simp add: uint_sub_lem [symmetric])
  have d: "0 \<le> ?d" using le by (simp add: pos_imp_zdiv_nonneg_iff)
  have "lookup_table lv ! i = ucast (floor_divide_sample ?d (?c - ?lo))"
    using assms(1) by (simp add: lookup_table_eq table16_def)
  then show ?thesis
    by (simp add: unsigned_ucast_eq take_bit_eq_mod uint_floor_divide_sample [OF d] sub c)
qed

lemma quotient_below_256:
  fixes x d :: int
  assumes "x < d * 256" "0 < d"
  shows "x div d < 256"
proof -
  have "d * (x div d) \<le> x"
    using assms(2) by (metis mult.commute div_mult_mod_eq pos_mod_sign add.commute le_add_same_cancel2)
  then have "d * (x div d) < d * 256" using assms(1) by linarith
  then show ?thesis using assms(2) by (simp only: mult_less_cancel_left_pos)
qed

lemma quotient_top:
  fixes d :: int
  assumes "0 < d"
  shows "(d - 1 + 255 * d) div d = 255"
  by (rule int_div_pos_eq [where r = "d - 1"]) (use assms in simp_all)

lemma full_window_entry:
  assumes i: "i < 65536" and lt: "fst lv < snd lv"
    and w: "(uint (snd lv) - uint (fst lv) + 1) mod 256 = 0"
  shows "uint (lookup_table lv ! i) =
     (min (uint (snd lv)) (max (int i) (uint (fst lv))) - uint (fst lv))
        div ((uint (snd lv) - uint (fst lv) + 1) div 256)"
proof -
  define L H where "L = uint (fst lv)" and "H = uint (snd lv)"
  define d where "d = (H - L + 1) div 256"
  define C where "C = min H (max (int i) L)"
  have LH: "L < H" using lt by (simp add: L_def H_def word_less_def)
  have w': "H - L + 1 = 256 * d"
    using w mult_div_mod_eq [of 256 "H - L + 1"] by (simp add: d_def L_def H_def)
  have d: "0 < d" using LH w' by linarith
  have "0 \<le> C - L" "C - L < d * 256" using LH w' by (simp_all add: C_def)
  then have "0 \<le> (C - L) div d" "(C - L) div d < 256"
    using d by (simp_all add: pos_imp_zdiv_nonneg_iff quotient_below_256)
  then have "((C - L) div d) mod 256 = (C - L) div d" by simp
  moreover have "fst lv \<le> snd lv" using lt by simp
  ultimately show ?thesis
    using uint_lookup_entry [OF i, of lv] by (simp add: C_def d_def L_def H_def)
qed

text \<open>
  Where the table is the linear map onto 0..255.  For a level window \<open>(low, high)\<close> with
  \<open>low < high\<close> whose width \<open>high - low + 1\<close> is a multiple of 256 (the default window
  \<open>(0, 65535)\<close> is one), the divisor \<open>(high - low + 1) / 256\<close> is exact, and the table
  is non-decreasing, maps every sample at or below \<open>low\<close> to 0 and every sample at or above
  \<open>high\<close> to 255.
\<close>

lemma lut_8bit_full_window:
  assumes lt: "fst lv < snd lv"
    and w: "(uint (snd lv) - uint (fst lv) + 1) mod 256 = 0"
  shows "length (lookup_table lv) = 65536 \<and>
     (\<forall>i j. i \<le> j \<and> j < 65536 \<longrightarrow> lookup_table lv ! i \<le> lookup_table lv ! j) \<and>
     (\<forall>i. i \<le> unat (fst lv) \<longrightarrow> lookup_table lv ! i = 0) \<and>
     (\<forall>i. unat (snd lv) \<le> i \<and> i < 65536 \<longrightarrow> lookup_table lv ! i = 255)"
proof -
  define L H where "L = uint (fst lv)" and "H = uint (snd lv)"
  define d where "d = (H - L + 1) div 256"
  have LH: "L < H" using lt by (simp add: L_def H_def word_less_def)
  have w': "H - L + 1 = 256 * d"
    using w mult_div_mod_eq [of 256 "H - L + 1"] by (simp add: d_def L_def H_def)
  have d: "0 < d" using LH w' by linarith
  have entry: "uint (lookup_table lv ! i) = (min H (max (int i) L) - L) div d"
    if "i < 65536" for i
    using full_window_entry [OF that lt w] by (simp add: L_def H_def d_def)
  have mono: "lookup_table lv ! i \<le> lookup_table lv ! j" if "i \<le> j \<and> j < 65536" for i j
  proof -
    from that have i: "i < 65536" and j: "j < 65536" and ij: "int i \<le> int j" by simp_all
    have "min H (max (int i) L) - L \<le> min H (max (int j) L) - L"
      using ij by simp
    then have "(min H (max (int i) L) - L) div d \<le> (min H (max (int j) L) - L) div d"
      using d by (rule zdiv_mono1)
    then show ?thesis
      by (simp add: word_le_def entry [OF i] entry [OF j])
  qed
  have low: "lookup_table lv ! i = 0" if "i \<le> unat (fst lv)" for i
  proof -
    have "unat (fst lv) < 65536" using unsigned_less [of "fst lv"] by simp
    with that have i: "i < 65536" by simp
    have "int i \<le> int (unat (fst lv))" using that by (simp only: of_nat_le_iff)
    then have "int i \<le> L" by (simp add: L_def)
    then have "min H (max (int i) L) = L" using LH by simp
    then have "uint (lookup_table lv ! i) = 0" by (simp add: entry [OF i])
    then show ?thesis by (simp add: word_uint_eq_iff)
  qed
  have high: "lookup_table lv ! i = 255" if "unat (snd lv) \<le> i \<and> i < 65536" for i
  proof -
    from that have i: "i < 65536" by simp
    from that have "int (unat (snd lv)) \<le> int i" by (simp only: of_nat_le_iff)
    then have "H \<le> int i" by (simp add: H_def)
    with i have "min H (max (int i) L) = H" using LH by simp
    moreover have "H - L = d - 1 + 255 * d" using w' by linarith
    ultimately have "uint (lookup_table lv ! i) = 255"
      using quotient_top [OF d] by (simp add: entry [OF i])
    then show ?thesis by (simp add: word_uint_eq_iff)
  qed
  show ?thesis using length_lookup_table mono low high by blast
qed

text \<open>The low end of the table is right for every window with \<open>low \<le> high\<close>.\<close>

lemma lut_8bit_low_end:
  assumes le: "fst lv \<le> snd lv" and i: "i \<le> unat (fst lv)"
  shows "lookup_table lv ! i = 0"
proof -
  have "unat (fst lv) < 65536" using unsigned_less [of "fst lv"] by simp
  with i have i': "i < 65536" by simp
  have "int i \<le> int (unat (fst lv))" using i by (simp only: of_nat_le_iff)
  then have "int i \<le> uint (fst lv)" by simp
  moreover have "uint (fst lv) \<le> uint (snd lv)" using le by (simp add: word_le_def)
  ultimately have "min (uint (snd lv)) (max (int i) (uint (fst lv))) = uint (fst lv)" by simp
  then have "uint (lookup_table lv ! i) = 0"
    using uint_lookup_entry [OF i' le] by simp
  then show ?thesis by (simp add: word_uint_eq_iff)
qed

text \<open>
  Claim C3 does not hold of the code.  The divisor \<open>(high - low + 1) / 256\<close> is computed by
  the integer division of Python 2 and so is rounded down; a quotient can then pass 255, and
  the cast to 8 bits wraps it around.  For the window \<open>(100, 4000)\<close> (where \<open>low < high\<close>)
  the divisor is \<open>3901 / 256 = 15\<close>: the sample 3939 maps to 255, the next sample 3940 to 0,
  and the samples from \<open>high = 4000\<close> on map to 4.  So the table is not non-decreasing, and
  it does not map the samples at or above \<open>high\<close> to 255.
\<close>

theorem lut_8bit_wraps_around:
  "(100 :: u16) < 4000 \<and>
   lookup_table (100, 4000) ! 3939 = 255 \<and> lookup_table (100, 4000) ! 3940 = 0 \<and>
   lookup_table (100, 4000) ! 4000 = 4 \<and> lookup_table (100, 4000) ! 65535 = 4"
proof -
  have "uint (lookup_table (100, 4000) ! 3939) = 255" "uint (lookup_table (100, 4000) ! 3940) = 0"
    "uint (lookup_table (100, 4000) ! 4000) = 4" "uint (lookup_table (100, 4000) ! 65535) = 4"
    using uint_lookup_entry [of 3939 "(100, 4000)"] uint_lookup_entry [of 3940 "(100, 4000)"]
      uint_lookup_entry [of 4000 "(100, 4000)"] uint_lookup_entry [of 65535 "(100, 4000)"]
    by simp_all
  then show ?thesis by (simp add: word_uint_eq_iff)
qed

lemma lookup_table_warnings_eq:
  "lookup_table_warnings lv =
     (if (uint (snd lv) - uint (fst lv) + 1) div 256 = 0 then [DivideByZero] else [])"
  using lut_8bit_fresh [of lv empty_store]
  by (simp add: lookup_table_warnings_def np_arange_def empty_store_def)

lemma converted_eq: "converted lv frame = Inr (map (\<lambda>i. lookup_table lv ! unat i) frame)"
  using convert_to_8bit_eq [of 0 "empty_store\<lparr>u16_arrays := [frame]\<rparr>" lv]
  by (simp add: converted_def empty_store_def)

lemma lut_8bit_in_place:
  assumes "a < length (u16_arrays s)"
  shows "u16_arrays (snd (lut_8bit lv a s)) ! a =
     map (\<lambda>x. floor_divide_sample ((uint (snd lv) - uint (fst lv) + 1) div 256)
                 (clip_sample (fst lv) (snd lv) x - fst lv)) (u16_arrays s ! a)"
  using assms
  by (simp add: lut_8bit_def clip_out_def isub_def floor_divide_out_def astype_uint8_def
      Let_def o_def)

text \<open>
  Claim C10.  For every frame in the store, \<^verbatim>\<open>convert_to_8bit\<close> returns (it does not
  raise) a reference to an 8-bit array that did not exist before, of the frame's size;
  the frame holds what it held before, and so does every other array that existed
  before the call.  The in-place operations of \<^verbatim>\<open>_lut_8bit\<close> (see \<open>lut_8bit_in_place\<close>)
  reach only the table that \<^verbatim>\<open>convert_to_8bit\<close> allocates itself.
\<close>

theorem convert_to_8bit_frame_unchanged:
  assumes "img < length (u16_arrays s)"
  shows "\<exists>r s'. convert_to_8bit lv img s = Inr (r, s') \<and>
     length (u8_arrays s) \<le> r \<and> r < length (u8_arrays s') \<and>
     length (u8_arrays s' ! r) = length (u16_arrays s ! img) \<and>
     u16_arrays s' ! img = u16_arrays s ! img \<and>
     take (length (u16_arrays s)) (u16_arrays s') = u16_arrays s \<and>
     take (length (u8_arrays s)) (u8_arrays s') = u8_arrays s"
  using assms by (simp add: convert_to_8bit_eq nth_append)

text \<open>The theorem on a store that holds one frame of three samples.\<close>

theorem convert_to_8bit_frame_unchanged_witness:
  "\<exists>r s'. convert_to_8bit (0, 65535) 0
       \<lparr>u16_arrays = [[0, 40000, 65535]], u8_arrays = [], np_warnings = []\<rparr> = Inr (r, s') \<and>
     length (u8_arrays s' ! r) = 3 \<and>
     u16_arrays s' ! 0 = [0, 40000, 65535]"
  using convert_to_8bit_frame_unchanged
    [of 0 "\<lparr>u16_arrays = [[0, 40000, 65535]], u8_arrays = [], np_warnings = []\<rparr>" "(0, 65535)"]
  by auto

lemma degenerate_entry:
  assumes "n < 65536"
  shows "lookup_table (l, l) ! n = 0"
proof -
  have "uint (lookup_table (l, l) ! n) = 0"
    using uint_lookup_entry [OF assms, of "(l, l)"] by simp
  then show ?thesis by (simp add: word_uint_eq_iff)
qed

text \<open>
  Claim C4 does not hold of the code.  For the degenerate window \<open>low = high\<close> there is no
  fallback: the divisor \<open>(high - low + 1) / 256\<close> is \<open>1 / 256\<close>, which the integer division
  of Python 2 rounds down to 0, and numpy carries the division by zero out.  It issues a
  divide-by-zero warning and does not raise; the conversion returns, and every sample of
  the frame is converted to 0.
\<close>

theorem degenerate_window_divides_by_zero:
  assumes "img < length (u16_arrays s)"
  shows "\<exists>r s'. convert_to_8bit (l, l) img s = Inr (r, s') \<and>
     np_warnings s' = np_warnings s @ [DivideByZero] \<and>
     u8_arrays s' ! r = replicate (length (u16_arrays s ! img)) 0"
proof -
  have bound: "unat i < 65536" for i :: u16
    using unsigned_less [of i] by simp
  have "map (\<lambda>i. lookup_table (l, l) ! unat i) (u16_arrays s ! img)
      = replicate (length (u16_arrays s ! img)) 0"
    by (simp add: degenerate_entry bound map_replicate_const)
  then show ?thesis
    using assms by (simp add: convert_to_8bit_eq nth_append)
qed

text \<open>The theorem on a store that holds one frame of two samples.\<close>

theorem degenerate_window_divides_by_zero_witness:
  "\<exists>r s'. convert_to_8bit (7, 7) 0
       \<lparr>u16_arrays = [[3, 900]], u8_arrays = [], np_warnings = []\<rparr> = Inr (r, s') \<and>
     np_warnings s' = [DivideByZero] \<and> u8_arrays s' ! r = [0, 0]"
  using degenerate_window_divides_by_zero
    [of 0 "\<lparr>u16_arrays = [[3, 900]], u8_arrays = [], np_warnings = []\<rparr>" 7]
  by (simp add: numeral_2_eq_2)

text \<open>Building the table for the window \<open>(7, 7)\<close> divides by zero.\<close>

lemma degenerate_table_warning:
  "lookup_table_warnings (7, 7) = [DivideByZero]"
  by (simp add: lookup_table_warnings_eq)

section \<open>The consumer and the producer: proofs\<close>

subsection \<open>One pass of the writer loop, and the passes up to the end marker\<close>

lemma frames_of_Cons: "frames_of (item # items) = frames_of [item] @ frames_of items"
  by (cases item) simp_all

lemma frames_of_append: "frames_of (xs @ ys) = frames_of xs @ frames_of ys"
proof (induction xs)
  case Nil
  then show ?case by simp
next
  case (Cons item xs)
  then show ?case using frames_of_Cons [of item "xs @ ys"] frames_of_Cons [of item xs] by simp
qed

lemma frames_of_map_Frame: "frames_of (map Frame frames) = frames"
  by (induction frames) simp_all

lemma passable_map_Frame:
  "list_all passable (map Frame frames) = (\<forall>f\<in>set frames. length f = 2048 * 2048)"
  by (induction frames) simp_all

lemma tiff_save_raises_None:
  assumes "0 \<le> c" and "c \<le> 9" and "save_raises env n = None"
  shows "tiff_save_raises env n c = None"
  using assms by (simp add: tiff_save_raises_def)

lemma writer_loop_passable:
  assumes "write_flag w" and "keyboard_interrupt env (gets w) = NoInterrupt" and "passable item"
    and "frames_of [item] = [] \<or> tiff_save_raises env (gets w) (comp_lev w) = None"
  shows "\<exists>w1. writer_loop env (item # rest) w = writer_loop env rest w1 \<and>
     map Inr (tiff_pages w1) = map Inr (tiff_pages w) @ map (converted (levels w)) (frames_of [item]) \<and>
     gets w1 = gets w + 1 \<and> write_flag w1 \<and> q w1 = rest \<and>
     tiff_closed w1 = tiff_closed w \<and> json_files w1 = json_files w \<and>
     filename w1 = filename w \<and> metadata w1 = metadata w \<and> levels w1 = levels w \<and>
     comp_lev w1 = comp_lev w \<and>
     img_num w1 = img_num w + length (frames_of [item])"
proof (cases item)
  case (Frame a)
  with assms show ?thesis
    apply (simp add: reshape_2048_def converted_eq Let_def)
    apply (intro conjI impI)
     apply (rule exI, rule conjI, rule refl, simp)+
    done
next
  case (Text s)
  with assms show ?thesis
    apply (simp add: Let_def)
    apply (rule exI, rule conjI, rule refl, simp)
    done
qed

lemma writer_loop_prefix:
  assumes "list_all passable pre" and "\<forall>n. keyboard_interrupt env n = NoInterrupt"
    and "write_flag w"
    and "frames_of pre = [] \<or> (\<forall>n. tiff_save_raises env n (comp_lev w) = None)"
  shows "\<exists>w'. writer_loop env (pre @ rest) w = writer_loop env rest w' \<and>
     map Inr (tiff_pages w') = map Inr (tiff_pages w) @ map (converted (levels w)) (frames_of pre) \<and>
     gets w' = gets w + length pre \<and> write_flag w' \<and>
     tiff_closed w' = tiff_closed w \<and> json_files w' = json_files w \<and>
     filename w' = filename w \<and> metadata w' = metadata w \<and> levels w' = levels w \<and>
     comp_lev w' = comp_lev w \<and>
     img_num w' = img_num w + length (frames_of pre)"
  using assms
proof (induction pre arbitrary: w)
  case Nil
  then show ?case by auto
next
  case (Cons item pre)
  from Cons.prems have item: "passable item" and pre: "list_all passable pre" by simp_all
  from Cons.prems have quiet: "keyboard_interrupt env (gets w) = NoInterrupt" by simp
  have fr: "frames_of (item # pre) = frames_of [item] @ frames_of pre"
    by (rule frames_of_Cons)
  from Cons.prems(4) fr
  have sv1: "frames_of [item] = [] \<or> tiff_save_raises env (gets w) (comp_lev w) = None"
    and sv2: "frames_of pre = [] \<or> (\<forall>n. tiff_save_raises env n (comp_lev w) = None)"
    by auto
  from writer_loop_passable [OF Cons.prems(3) quiet item sv1, of "pre @ rest"]
  obtain w1 where step: "writer_loop env (item # pre @ rest) w = writer_loop env (pre @ rest) w1"
    and w1: "map Inr (tiff_pages w1) = map Inr (tiff_pages w) @ map (converted (levels w)) (frames_of [item])"
      "gets w1 = gets w + 1" "write_flag w1" "tiff_closed w1 = tiff_closed w"
      "json_files w1 = json_files w" "filename w1 = filename w" "metadata w1 = metadata w"
      "levels w1 = levels w" "comp_lev w1 = comp_lev w"
      "img_num w1 = img_num w + length (frames_of [item])"
    by blast
  from sv2 w1(9)
  have sv2': "frames_of pre = [] \<or> (\<forall>n. tiff_save_raises env n (comp_lev w1) = None)" by simp
  from Cons.IH [OF pre Cons.prems(2) w1(3) sv2']
  obtain w' where w': "writer_loop env (pre @ rest) w1 = writer_loop env rest w'"
      "map Inr (tiff_pages w') = map Inr (tiff_pages w1) @ map (converted (levels w1)) (frames_of pre)"
      "gets w' = gets w1 + length pre" "write_flag w'"
      "tiff_closed w' = tiff_closed w1" "json_files w' = json_files w1"
      "filename w' = filename w1" "metadata w' = metadata w1" "levels w' = levels w1"
      "comp_lev w' = comp_lev w1"
      "img_num w' = img_num w1 + length (frames_of pre)"
    by blast
  have "writer_loop env ((item # pre) @ rest) w = writer_loop env rest w'"
    using step w'(1) by simp
  moreover have "map Inr (tiff_pages w') =
      map Inr (tiff_pages w) @ map (converted (levels w)) (frames_of (item # pre))"
    using w'(2) w1(1) w1(8) by (simp add: fr)
  moreover have "img_num w' = img_num w + length (frames_of (item # pre))"
    using w'(11) w1(10) by (simp add: fr)
  ultimately show ?case
    using w'(3-10) w1(2-9) by (intro exI [of _ w']) (simp del: writer_loop.simps)
qed

lemma writer_loop_done:
  assumes "write_flag w" and "keyboard_interrupt env (gets w) = NoInterrupt"
  shows "writer_loop env (Text ''done'' # post) w = Returned (w\<lparr>q := post, gets := gets w + 1\<rparr>)"
  using assms by (simp add: Let_def)


subsection \<open>What \<^verbatim>\<open>save_metadata\<close> does\<close>

lemma endswith_split: "endswith s suf \<Longrightarrow> s = drop_last (length suf) s @ suf"
  by (auto simp: endswith_def drop_last_def) (metis append_take_drop_id)

lemma endswith_append: "endswith (base @ suf) suf"
  by (simp add: endswith_def)

lemma drop_last_append: "drop_last (length suf) (base @ suf) = base"
  by (simp add: drop_last_def)

lemma json_file_name_Inr:
  assumes "json_file_name fname = Inr jf"
  shows "\<exists>base. (fname = base @ ''.tiff'' \<or> fname = base @ ''.tif'') \<and> jf = base @ ''.json''"
proof (cases "endswith fname ''.tiff''")
  case True
  from endswith_split [OF True] have "fname = drop_last 5 fname @ ''.tiff''"
    by (simp add: eval_nat_numeral)
  moreover from True assms have "jf = drop_last 5 fname @ ''.json''"
    by (simp add: json_file_name_def)
  ultimately show ?thesis by blast
next
  case False
  with assms have tif: "endswith fname ''.tif''"
    by (simp add: json_file_name_def split: if_splits)
  from endswith_split [OF tif] have "fname = drop_last 4 fname @ ''.tif''"
    by (simp add: eval_nat_numeral)
  moreover from False tif assms have "jf = drop_last 4 fname @ ''.json''"
    by (simp add: json_file_name_def)
  ultimately show ?thesis by blast
qed

lemma json_file_name_Inl:
  "json_file_name fname = Inl e \<longleftrightarrow>
     \<not> endswith fname ''.tiff'' \<and> \<not> endswith fname ''.tif'' \<and> e = ValueError"
  by (auto simp: json_file_name_def)

lemma json_dump_Returned:
  "json_dump env jf vals meta w = Returned w' \<longleftrightarrow>
     open_raises env jf = None \<and> write_raises env jf = None \<and> list_all json_encodable vals \<and>
     w' = w\<lparr>json_files := json_files w @ [(jf, Dumped meta)]\<rparr>"
  by (auto simp: json_dump_def split: option.splits)

lemma json_dump_Raised:
  assumes "json_dump env jf vals meta w = Raised e w'"
  shows "w' = w \<or> w' = w\<lparr>json_files := json_files w @ [(jf, Incomplete)]\<rparr>"
  using assms by (auto simp: json_dump_def split: option.splits if_splits)

lemma json_dump_not_Blocked: "json_dump env jf vals meta w \<noteq> Blocked w'"
  by (auto simp: json_dump_def split: option.splits)

text \<open>The dictionary that \<^verbatim>\<open>save_metadata\<close> builds, and the reads that precede it.\<close>

lemma save_metadata_shape:
  "(\<exists>e. save_metadata env fname w = Raised e w) \<or>
   (\<exists>base ymd hms fr v st lv a b.
      (fname = base @ ''.tiff'' \<or> fname = base @ ''.tif'') \<and>
      1900 \<le> year (clock env) \<and> year (clock env) \<le> 9999 \<and>
      strftime_Ymd (clock env) = Inr ymd \<and> strftime_HMS (clock env) = Inr hms \<and>
      metadata w ''framerate'' = Some fr \<and> metadata w ''version'' = Some v \<and>
      metadata w ''stims'' = Some st \<and> metadata w ''levels'' = Some lv \<and>
      int_of_item lv 0 = Inr a \<and> int_of_item lv 1 = Inr b \<and>
      json_file_name fname = Inr (base @ ''.json'') \<and>
      save_metadata env fname w =
        json_dump env (base @ ''.json'') [fr, v, st]
          [''framerate'' \<mapsto> fr, ''source'' \<mapsto> Str ''AwesomeImager'', ''version'' \<mapsto> v,
           ''date'' \<mapsto> Str ymd, ''time'' \<mapsto> Str hms, ''stims'' \<mapsto> st,
           ''level_min'' \<mapsto> Num (PyInt a), ''level_max'' \<mapsto> Num (PyInt b)] w)"
proof -
  let ?R = "\<exists>e. save_metadata env fname w = Raised e w"
  show ?thesis
  proof (cases "1 \<le> year (clock env) \<and> year (clock env) \<le> 9999 \<and> 1900 \<le> year (clock env)")
    case False
    then have ?R by (auto simp: save_metadata_def fromtimestamp_def strftime_Ymd_def)
    then show ?thesis by blast
  next
    case yr: True
    then have d: "fromtimestamp (clock env) = Inr (clock env)" by (simp add: fromtimestamp_def)
    from yr obtain ymd hms where t: "strftime_Ymd (clock env) = Inr ymd"
        "strftime_HMS (clock env) = Inr hms"
      by (simp add: strftime_Ymd_def strftime_HMS_def)
    show ?thesis
    proof (cases "metadata w ''framerate''")
      case None
      then have ?R by (simp add: save_metadata_def d t getitem_def)
      then show ?thesis by blast
    next
      case fr: (Some fr)
      show ?thesis
      proof (cases "metadata w ''version''")
        case None
        then have ?R by (simp add: save_metadata_def d t fr getitem_def)
        then show ?thesis by blast
      next
        case v: (Some v)
        show ?thesis
        proof (cases "metadata w ''stims''")
          case None
          then have ?R by (simp add: save_metadata_def d t fr v getitem_def)
          then show ?thesis by blast
        next
          case st: (Some st)
          show ?thesis
          proof (cases "metadata w ''levels''")
            case None
            then have ?R by (simp add: save_metadata_def d t fr v st getitem_def)
            then show ?thesis by blast
          next
            case lv: (Some lv)
            show ?thesis
            proof (cases "int_of_item lv 0")
              case (Inl e)
              then have ?R by (simp add: save_metadata_def d t fr v st lv getitem_def)
              then show ?thesis by blast
            next
              case a: (Inr a)
              show ?thesis
              proof (cases "int_of_item lv 1")
                case (Inl e)
                then have ?R by (simp add: save_metadata_def d t fr v st lv a getitem_def)
                then show ?thesis by blast
              next
                case b: (Inr b)
                let ?meta = "[''framerate'' \<mapsto> fr, ''source'' \<mapsto> Str ''AwesomeImager'',
                    ''version'' \<mapsto> v, ''date'' \<mapsto> Str ymd, ''time'' \<mapsto> Str hms, ''stims'' \<mapsto> st,
                    ''level_min'' \<mapsto> Num (PyInt a), ''level_max'' \<mapsto> Num (PyInt b)]"
                have eq: "save_metadata env fname w =
                   (case json_file_name fname of
                      Inl e \<Rightarrow> Raised e w
                    | Inr json_file \<Rightarrow> json_dump env json_file [fr, v, st] ?meta w)"
                  using b by (simp add: save_metadata_def d t fr v st lv a getitem_def Let_def)
                show ?thesis
                proof (cases "json_file_name fname")
                  case (Inl e)
                  with eq have ?R by simp
                  then show ?thesis by blast
                next
                  case (Inr jf)
                  from json_file_name_Inr [OF this] obtain base
                    where base: "fname = base @ ''.tiff'' \<or> fname = base @ ''.tif''"
                      and jf: "jf = base @ ''.json''"
                    by blast
                  from eq Inr jf have "save_metadata env fname w =
                      json_dump env (base @ ''.json'') [fr, v, st] ?meta w"
                    by simp
                  moreover from Inr jf have "json_file_name fname = Inr (base @ ''.json'')" by simp
                  ultimately show ?thesis using base yr t fr v st lv a b by blast
                qed
              qed
            qed
          qed
        qed
      qed
    qed
  qed
qed

lemma save_metadata_Returned:
  assumes "save_metadata env fname w = Returned w'"
  shows "\<exists>base ymd hms fr v st lv a b.
      (fname = base @ ''.tiff'' \<or> fname = base @ ''.tif'') \<and>
      strftime_Ymd (clock env) = Inr ymd \<and> strftime_HMS (clock env) = Inr hms \<and>
      metadata w ''framerate'' = Some fr \<and> metadata w ''version'' = Some v \<and>
      metadata w ''stims'' = Some st \<and> metadata w ''levels'' = Some lv \<and>
      int_of_item lv 0 = Inr a \<and> int_of_item lv 1 = Inr b \<and>
      w' = w\<lparr>json_files := json_files w @
             [(base @ ''.json'',
               Dumped [''framerate'' \<mapsto> fr, ''source'' \<mapsto> Str ''AwesomeImager'', ''version'' \<mapsto> v,
                 ''date'' \<mapsto> Str ymd, ''time'' \<mapsto> Str hms, ''stims'' \<mapsto> st,
                 ''level_min'' \<mapsto> Num (PyInt a), ''level_max'' \<mapsto> Num (PyInt b)])]\<rparr>"
proof -
  from save_metadata_shape [of env fname w] assms
  obtain base ymd hms fr v st lv a b where
    f: "fname = base @ ''.tiff'' \<or> fname = base @ ''.tif''"
    and t: "strftime_Ymd (clock env) = Inr ymd" "strftime_HMS (clock env) = Inr hms"
    and m: "metadata w ''framerate'' = Some fr" "metadata w ''version'' = Some v"
      "metadata w ''stims'' = Some st" "metadata w ''levels'' = Some lv"
      "int_of_item lv 0 = Inr a" "int_of_item lv 1 = Inr b"
    and eq: "save_metadata env fname w =
        json_dump env (base @ ''.json'') [fr, v, st]
          [''framerate'' \<mapsto> fr, ''source'' \<mapsto> Str ''AwesomeImager'', ''version'' \<mapsto> v,
           ''date'' \<mapsto> Str ymd, ''time'' \<mapsto> Str hms, ''stims'' \<mapsto> st,
           ''level_min'' \<mapsto> Num (PyInt a), ''level_max'' \<mapsto> Num (PyInt b)] w"
    by auto
  from eq assms have "json_dump env (base @ ''.json'') [fr, v, st]
          [''framerate'' \<mapsto> fr, ''source'' \<mapsto> Str ''AwesomeImager'', ''version'' \<mapsto> v,
           ''date'' \<mapsto> Str ymd, ''time'' \<mapsto> Str hms, ''stims'' \<mapsto> st,
           ''level_min'' \<mapsto> Num (PyInt a), ''level_max'' \<mapsto> Num (PyInt b)] w = Returned w'"
    by simp
  then have "w' = w\<lparr>json_files := json_files w @
             [(base @ ''.json'',
               Dumped [''framerate'' \<mapsto> fr, ''source'' \<mapsto> Str ''AwesomeImager'', ''version'' \<mapsto> v,
                 ''date'' \<mapsto> Str ymd, ''time'' \<mapsto> Str hms, ''stims'' \<mapsto> st,
                 ''level_min'' \<mapsto> Num (PyInt a), ''level_max'' \<mapsto> Num (PyInt b)])]\<rparr>"
    by (simp only: json_dump_Returned)
  with f t m show ?thesis by blast
qed

lemma save_metadata_Raised:
  assumes "save_metadata env fname w = Raised e w'"
  shows "w' = w \<or>
     (\<exists>base. (fname = base @ ''.tiff'' \<or> fname = base @ ''.tif'') \<and>
        w' = w\<lparr>json_files := json_files w @ [(base @ ''.json'', Incomplete)]\<rparr>)"
proof -
  from save_metadata_shape [of env fname w]
  consider "\<exists>e. save_metadata env fname w = Raised e w"
    | base vals meta where "fname = base @ ''.tiff'' \<or> fname = base @ ''.tif''"
        "save_metadata env fname w = json_dump env (base @ ''.json'') vals meta w"
    by blast
  then show ?thesis
  proof cases
    case 1
    with assms show ?thesis by auto
  next
    case 2
    from 2(2) assms have "json_dump env (base @ ''.json'') vals meta w = Raised e w'" by simp
    from json_dump_Raised [OF this] 2(1) show ?thesis by blast
  qed
qed

lemma save_metadata_not_Blocked: "save_metadata env fname w \<noteq> Blocked w'"
proof -
  from save_metadata_shape [of env fname w]
  consider "\<exists>e. save_metadata env fname w = Raised e w"
    | base vals meta where
        "save_metadata env fname w = json_dump env (base @ ''.json'') vals meta w"
    by blast
  then show ?thesis
  proof cases
    case 1
    then show ?thesis by auto
  next
    case 2
    then show ?thesis by (simp add: json_dump_not_Blocked)
  qed
qed

lemma save_metadata_complete:
  assumes "1900 \<le> year (clock env)" and "year (clock env) \<le> 9999"
    and "metadata w ''framerate'' = Some fr" and "metadata w ''version'' = Some v"
    and "metadata w ''stims'' = Some st" and "metadata w ''levels'' = Some lv"
    and "int_of_item lv 0 = Inr a" and "int_of_item lv 1 = Inr b"
    and "json_file_name fname = Inr jf"
    and "open_raises env jf = None" and "write_raises env jf = None"
    and "json_encodable fr" and "json_encodable v" and "json_encodable st"
  shows "save_metadata env fname w =
     Returned (w\<lparr>json_files := json_files w @
       [(jf, Dumped [''framerate'' \<mapsto> fr, ''source'' \<mapsto> Str ''AwesomeImager'', ''version'' \<mapsto> v,
                 ''date'' \<mapsto> Str (four_digits (year (clock env)) @ two_digits (month (clock env))
                                   @ two_digits (day (clock env))),
                 ''time'' \<mapsto> Str (two_digits (hour (clock env)) @ two_digits (minute (clock env))
                                   @ two_digits (second (clock env))),
                 ''stims'' \<mapsto> st,
                 ''level_min'' \<mapsto> Num (PyInt a), ''level_max'' \<mapsto> Num (PyInt b)])]\<rparr>)"
  using assms
  by (simp add: save_metadata_def fromtimestamp_def strftime_Ymd_def strftime_HMS_def getitem_def
      json_dump_def Let_def)

lemma save_metadata_other_suffix:
  assumes "\<not> endswith fname ''.tiff''" and "\<not> endswith fname ''.tif''"
  shows "\<exists>e. save_metadata env fname w = Raised e w"
proof -
  from assms have no: "json_file_name fname = Inl ValueError" by (simp add: json_file_name_def)
  from save_metadata_shape [of env fname w] no show ?thesis by auto
qed

lemma save_metadata_final: "\<exists>js. final (save_metadata env fname w) = w\<lparr>json_files := js\<rparr>"
proof (cases "save_metadata env fname w")
  case (Returned w')
  from save_metadata_Returned [OF this] obtain p where "w' = w\<lparr>json_files := json_files w @ [p]\<rparr>"
    by blast
  then have "\<exists>js. w' = w\<lparr>json_files := js\<rparr>" by blast
  with Returned show ?thesis by simp
next
  case (Raised e w')
  from save_metadata_Raised [OF this]
  have "w' = w\<lparr>json_files := json_files w\<rparr> \<or> (\<exists>p. w' = w\<lparr>json_files := json_files w @ [p]\<rparr>)"
    by auto
  then have "\<exists>js. w' = w\<lparr>json_files := js\<rparr>" by blast
  with Raised show ?thesis by simp
next
  case (Blocked w')
  then show ?thesis by (simp add: save_metadata_not_Blocked)
qed

subsection \<open>The run up to the end marker, and up to a malformed frame\<close>

lemma run_done:
  assumes "list_all passable pre" and "\<forall>n. keyboard_interrupt env n = NoInterrupt"
    and "write_flag w"
    and "frames_of pre = [] \<or> (0 \<le> comp_lev w \<and> comp_lev w \<le> 9 \<and> (\<forall>n. save_raises env n = None))"
    and "q w = pre @ Text ''done'' # post"
  shows "\<exists>w1. run env w =
        (case close_raises env of
           Some e \<Rightarrow> Raised e w1
         | None \<Rightarrow> save_metadata env (filename w) (w1\<lparr>tiff_closed := tiff_closed w + 1\<rparr>)) \<and>
     map Inr (tiff_pages w1) = map Inr (tiff_pages w) @ map (converted (levels w)) (frames_of pre) \<and>
     q w1 = post \<and> gets w1 = gets w + length pre + 1 \<and>
     tiff_closed w1 = tiff_closed w \<and> json_files w1 = json_files w \<and>
     filename w1 = filename w \<and> metadata w1 = metadata w \<and> levels w1 = levels w \<and>
     img_num w1 = length (frames_of pre)"
proof -
  let ?w0 = "w\<lparr>img_num := 0\<rparr>"
  have flag: "write_flag ?w0" using assms(3) by simp
  have sv: "frames_of pre = [] \<or> (\<forall>n. tiff_save_raises env n (comp_lev ?w0) = None)"
    using assms(4) by (auto simp: tiff_save_raises_def)
  from writer_loop_prefix [OF assms(1) assms(2) flag sv, of "Text ''done'' # post"]
  obtain w' where w': "writer_loop env (pre @ Text ''done'' # post) ?w0
        = writer_loop env (Text ''done'' # post) w'"
      "map Inr (tiff_pages w') = map Inr (tiff_pages w) @ map (converted (levels w)) (frames_of pre)"
      "gets w' = gets w + length pre" "write_flag w'"
      "tiff_closed w' = tiff_closed w" "json_files w' = json_files w"
      "filename w' = filename w" "metadata w' = metadata w" "levels w' = levels w"
      "img_num w' = length (frames_of pre)"
    by auto
  have quiet: "keyboard_interrupt env (gets w') = NoInterrupt" using assms(2) by simp
  let ?w1 = "w'\<lparr>q := post, gets := gets w' + 1\<rparr>"
  have loop: "writer_loop env (q w) ?w0 = Returned ?w1"
    using w'(1) writer_loop_done [OF w'(4) quiet, of post] assms(5) by simp
  have "run env w =
        (case close_raises env of
           Some e \<Rightarrow> Raised e ?w1
         | None \<Rightarrow> save_metadata env (filename w) (?w1\<lparr>tiff_closed := tiff_closed w + 1\<rparr>))"
    using w'(5) w'(7) by (simp add: run_def loop cong: option.case_cong)
  then show ?thesis using w'(2-10) by (intro exI [of _ ?w1]) simp
qed


lemma run_final:
  assumes "list_all passable pre" and "\<forall>n. keyboard_interrupt env n = NoInterrupt"
    and "write_flag w"
    and "frames_of pre = [] \<or> (0 \<le> comp_lev w \<and> comp_lev w \<le> 9 \<and> (\<forall>n. save_raises env n = None))"
    and "q w = pre @ Text ''done'' # post"
  shows "map Inr (tiff_pages (final (run env w)))
           = map Inr (tiff_pages w) @ map (converted (levels w)) (frames_of pre) \<and>
         length (tiff_pages (final (run env w))) = length (tiff_pages w) + length (frames_of pre) \<and>
         q (final (run env w)) = post"
proof -
  from run_done [OF assms]
  obtain w1 where run: "run env w =
        (case close_raises env of
           Some e \<Rightarrow> Raised e w1
         | None \<Rightarrow> save_metadata env (filename w) (w1\<lparr>tiff_closed := tiff_closed w + 1\<rparr>))"
    and w1: "map Inr (tiff_pages w1) = map Inr (tiff_pages w) @ map (converted (levels w)) (frames_of pre)"
      "q w1 = post"
    by blast
  have fin: "tiff_pages (final (run env w)) = tiff_pages w1 \<and> q (final (run env w)) = q w1"
  proof (cases "close_raises env")
    case (Some e)
    then show ?thesis by (simp add: run)
  next
    case None
    from save_metadata_final [of env "filename w" "w1\<lparr>tiff_closed := tiff_closed w + 1\<rparr>"]
    obtain js where "final (save_metadata env (filename w) (w1\<lparr>tiff_closed := tiff_closed w + 1\<rparr>))
        = w1\<lparr>tiff_closed := tiff_closed w + 1, json_files := js\<rparr>"
      by auto
    with None show ?thesis by (simp add: run)
  qed
  have "length (map (Inr :: u8 list \<Rightarrow> py_exception + u8 list) (tiff_pages w1))
      = length (map (Inr :: u8 list \<Rightarrow> py_exception + u8 list) (tiff_pages w)
          @ map (converted (levels w)) (frames_of pre))"
    using w1(1) by simp
  then have "length (tiff_pages w1) = length (tiff_pages w) + length (frames_of pre)" by simp
  then show ?thesis using fin w1 by simp
qed

subsection \<open>Concrete runs\<close>

lemma digits_example:
  "four_digits 2018 = ''2018''" "two_digits 3 = ''03''" "two_digits 29 = ''29''"
  "two_digits 14 = ''14''" "two_digits 5 = ''05''" "two_digits 9 = ''09''"
  by (simp_all add: four_digits_def two_digits_def digit_def char_of_def bit_Suc_0_iff)

lemma json_file_name_out: "json_file_name ''out.tiff'' = Inr ''out.json''"
  by (simp add: json_file_name_def endswith_def drop_last_def)

lemma save_metadata_full:
  assumes "metadata w = full_metadata" and "clock env = clock quiet"
    and "open_raises env ''out.json'' = None" and "write_raises env ''out.json'' = None"
  shows "save_metadata env ''out.tiff'' w =
     Returned (w\<lparr>json_files := json_files w @ [(''out.json'', Dumped full_record)]\<rparr>)"
proof -
  have "save_metadata env ''out.tiff'' w =
     Returned (w\<lparr>json_files := json_files w @
       [(''out.json'', Dumped [''framerate'' \<mapsto> Num (PyFloat (Finite 20)),
                 ''source'' \<mapsto> Str ''AwesomeImager'', ''version'' \<mapsto> Str ''0.1'',
                 ''date'' \<mapsto> Str (four_digits (year (clock env)) @ two_digits (month (clock env))
                                   @ two_digits (day (clock env))),
                 ''time'' \<mapsto> Str (two_digits (hour (clock env)) @ two_digits (minute (clock env))
                                   @ two_digits (second (clock env))),
                 ''stims'' \<mapsto> NoneVal,
                 ''level_min'' \<mapsto> Num (PyInt 0), ''level_max'' \<mapsto> Num (PyInt 65535)])]\<rparr>)"
    by (rule save_metadata_complete [where lv = "Tuple [PyInt 0, PyInt 65535]"])
       (simp_all add: assms full_metadata_def quiet_def json_file_name_out)
  then show ?thesis
    by (simp add: assms(2) quiet_def digits_example full_record_def)
qed

lemma quiet_files:
  "clock quiet = clock quiet" "open_raises quiet ''out.json'' = None"
  "write_raises quiet ''out.json'' = None" "close_raises quiet = None"
  by (simp_all add: quiet_def)

lemma interrupting_files:
  "clock interrupting = clock quiet" "open_raises interrupting ''out.json'' = None"
  "write_raises interrupting ''out.json'' = None" "close_raises interrupting = None"
  by (simp_all add: interrupting_def quiet_def)

lemma two_frames_ok: "\<forall>f\<in>set [black_frame, white_frame]. length f = 2048 * 2048"
  by (simp add: black_frame_def white_frame_def)

lemma quiet_no_interrupt: "\<forall>n. keyboard_interrupt quiet n = NoInterrupt"
  by (simp add: quiet_def)


lemma passable_example: "list_all passable [Frame black_frame, Text ''go'']"
  by (simp add: black_frame_def)


lemma reshape_black: "reshape_2048 black_frame = Inr black_frame"
  by (simp add: reshape_2048_def black_frame_def)

lemma converted_black: "converted (0, 65535) black_frame = Inr (replicate (2048 * 2048) 0)"
proof -
  have "uint (lookup_table (0, 65535) ! 0) = 0"
    using uint_lookup_entry [of 0 "(0, 65535)"] by simp
  then have "lookup_table (0, 65535) ! 0 = 0" by (simp add: word_uint_eq_iff)
  then show ?thesis by (simp add: converted_eq black_frame_def)
qed

lemma converted_white: "converted (0, 65535) white_frame = Inr (replicate (2048 * 2048) 255)"
proof -
  have "uint (lookup_table (0, 65535) ! 65535) = 255"
    using uint_lookup_entry [of 65535 "(0, 65535)"] by simp
  then have "lookup_table (0, 65535) ! 65535 = 255" by (simp add: word_uint_eq_iff)
  then show ?thesis by (simp add: converted_eq white_frame_def)
qed

subsection \<open>The consumer writes what it received, in order\<close>

text \<open>
  Claim C1, as amended.  Let the queue hold N frames, each of 2048 * 2048 samples (the
  fixed shape that the loop reshapes to), followed by the end marker \<^verbatim>\<open>'done'\<close>; let the
  writer not have been stopped (\<^verbatim>\<open>self.write\<close> is true), let no \<^verbatim>\<open>KeyboardInterrupt\<close>
  arrive, and, if there is a frame at all, let the compression level lie in 0..9 and let no
  \<^verbatim>\<open>tiff_writer.save\<close> fail.  Then, whatever the closing of the container and
  \<^verbatim>\<open>save_metadata\<close> do afterwards, the container ends with exactly the conversions of
  the N frames saved to it, in the order of the queue: one page per frame, none twice,
  none left out, and the queue is empty.
\<close>

theorem writer_appends_frames_in_order:
  assumes "\<forall>f\<in>set frames. length f = 2048 * 2048"
    and "\<forall>n. keyboard_interrupt env n = NoInterrupt"
    and "write_flag w"
    and "frames = [] \<or> (0 \<le> comp_lev w \<and> comp_lev w \<le> 9 \<and> (\<forall>n. save_raises env n = None))"
    and "q w = map Frame frames @ [Text ''done'']"
  shows "map Inr (tiff_pages (final (run env w)))
           = map Inr (tiff_pages w) @ map (converted (levels w)) frames \<and>
         length (tiff_pages (final (run env w))) = length (tiff_pages w) + length frames \<and>
         q (final (run env w)) = []"
proof -
  have pre: "list_all passable (map Frame frames)"
    using assms(1) by (simp add: passable_map_Frame)
  have sv: "frames_of (map Frame frames) = [] \<or>
      (0 \<le> comp_lev w \<and> comp_lev w \<le> 9 \<and> (\<forall>n. save_raises env n = None))"
    using assms(4) by (simp add: frames_of_map_Frame)
  have "q w = map Frame frames @ Text ''done'' # []" using assms(5) by simp
  from run_final [OF pre assms(2) assms(3) sv this] show ?thesis
    by (simp add: frames_of_map_Frame)
qed

text \<open>
  The theorem on a queue of a black frame, a white frame and the end marker: the
  container holds a page of zeros and then a page of 255s.
\<close>

theorem writer_appends_frames_in_order_witness:
  "tiff_pages (final (run quiet
       (a_writer full_metadata [Frame black_frame, Frame white_frame, Text ''done''])))
     = [replicate (2048 * 2048) 0, replicate (2048 * 2048) 255]"
proof -
  let ?w = "a_writer full_metadata [Frame black_frame, Frame white_frame, Text ''done'']"
  have w: "write_flag ?w"
      "[black_frame, white_frame] = [] \<or>
         (0 \<le> comp_lev ?w \<and> comp_lev ?w \<le> 9 \<and> (\<forall>n. save_raises quiet n = None))"
      "q ?w = map Frame [black_frame, white_frame] @ [Text ''done'']"
    by (simp_all add: a_writer_def quiet_def)
  from writer_appends_frames_in_order [OF two_frames_ok quiet_no_interrupt w]
  have "map Inr (tiff_pages (final (run quiet ?w)))
      = [Inr (replicate (2048 * 2048) 0) :: py_exception + u8 list, Inr (replicate (2048 * 2048) 255)]"
    by (simp add: a_writer_def converted_black converted_white)
  then show ?thesis by (auto simp: map_eq_Cons_conv)
qed

text \<open>
  Claim C1 as the specification states it fails.  When a \<^verbatim>\<open>KeyboardInterrupt\<close> arrives
  inside the \<^verbatim>\<open>try\<close> while the first frame is shown, the handler breaks out of the loop:
  the frame has been taken from the queue and is not saved, and \<^verbatim>\<open>run\<close> goes on to close
  the container and to write the metadata, and returns.  And with the compression level
  10, \<^verbatim>\<open>tiff_writer.save\<close> raises \<^verbatim>\<open>ValueError\<close>, which the loop does not catch: the frame
  is not saved and the container is not closed.
\<close>

theorem writer_drops_frame_counterexample:
  "run interrupting (a_writer full_metadata [Frame black_frame, Text ''done'']) =
     Returned ((a_writer full_metadata [Text ''done''])
       \<lparr>tiff_closed := 1, json_files := [(''out.json'', Dumped full_record)], gets := 1\<rparr>) \<and>
   tiff_pages (final (run interrupting (a_writer full_metadata [Frame black_frame, Text ''done'']))) = [] \<and>
   run quiet ((a_writer full_metadata [Frame black_frame, Text ''done''])\<lparr>comp_lev := 10\<rparr>) =
     Raised ValueError ((a_writer full_metadata [Text ''done''])\<lparr>comp_lev := 10, gets := 1\<rparr>)"
proof -
  let ?w = "a_writer full_metadata [Frame black_frame, Text ''done'']"
  let ?w1 = "(a_writer full_metadata [Text ''done''])\<lparr>gets := 1\<rparr>"
  have loop: "writer_loop interrupting (q ?w) (?w\<lparr>img_num := 0\<rparr>) = Returned ?w1"
    by (simp add: a_writer_def interrupting_def quiet_def reshape_black Let_def)
  have md: "metadata (?w1\<lparr>tiff_closed := tiff_closed ?w1 + 1\<rparr>) = full_metadata"
    by (simp add: a_writer_def)
  have r1: "run interrupting ?w =
     Returned ((a_writer full_metadata [Text ''done''])
       \<lparr>tiff_closed := 1, json_files := [(''out.json'', Dumped full_record)], gets := 1\<rparr>)"
    unfolding run_def loop
    using save_metadata_full [OF md interrupting_files(1-3)]
    by (simp add: interrupting_files(4) a_writer_def)
  have r2: "run quiet (?w\<lparr>comp_lev := 10\<rparr>) =
     Raised ValueError ((a_writer full_metadata [Text ''done''])\<lparr>comp_lev := 10, gets := 1\<rparr>)"
    by (simp add: run_def a_writer_def quiet_def reshape_black converted_black
        tiff_save_raises_def Let_def)
  show ?thesis by (simp add: r1 r2) (simp add: a_writer_def)
qed

subsection \<open>The end marker\<close>

text \<open>
  Claim C2, as amended.  Let the queue hold items that the loop gets past (frames of
  2048 * 2048 samples, strings other than \<^verbatim>\<open>'done'\<close>), then \<^verbatim>\<open>'done'\<close>, then anything; let
  the writer not have been stopped, let no \<^verbatim>\<open>KeyboardInterrupt\<close> arrive, let every save
  succeed (if there is a frame, the compression level lies in 0..9 and no
  \<^verbatim>\<open>tiff_writer.save\<close> fails) and let \<^verbatim>\<open>tiff_writer.close()\<close> not fail.  Then \<^verbatim>\<open>run\<close> makes
  no call of \<^verbatim>\<open>q.get()\<close> after the one that returns \<^verbatim>\<open>'done'\<close> (what follows it stays in
  the queue), closes the container exactly once, and then calls \<^verbatim>\<open>save_metadata\<close> once,
  on the closed writer \<open>w2\<close>; what that call does is what \<^verbatim>\<open>run\<close> does:
  \<^item> if it returns, exactly one metadata record has been written, and nothing else has
    changed;
  \<^item> if it raises, no metadata record has been written: nothing has changed, or one
    file has been left incomplete;
  \<^item> it does not block;
  \<^item> it returns when the clock shows a year from 1900 to 9999, the metadata holds
    \<^verbatim>\<open>'framerate'\<close>, \<^verbatim>\<open>'version'\<close>, \<^verbatim>\<open>'stims'\<close> and \<^verbatim>\<open>'levels'\<close>, the first two entries of the
    levels convert to integers, the file name ends in \<^verbatim>\<open>.tiff\<close> or \<^verbatim>\<open>.tif\<close>, the metadata
    file can be opened and written, and \<^verbatim>\<open>json.dump\<close> can encode the three values taken
    from the metadata;
  \<^item> it raises, and nothing is written, when the file name ends in neither \<^verbatim>\<open>.tiff\<close> nor
    \<^verbatim>\<open>.tif\<close>.
\<close>

theorem done_is_terminal:
  assumes "list_all passable pre" and "\<forall>n. keyboard_interrupt env n = NoInterrupt"
    and "write_flag w"
    and "frames_of pre = [] \<or> (0 \<le> comp_lev w \<and> comp_lev w \<le> 9 \<and> (\<forall>n. save_raises env n = None))"
    and "close_raises env = None"
    and "q w = pre @ Text ''done'' # post"
  shows "\<exists>w2. run env w = save_metadata env (filename w) w2 \<and>
       q w2 = post \<and> gets w2 = gets w + length pre + 1 \<and>
       tiff_closed w2 = tiff_closed w + 1 \<and> json_files w2 = json_files w \<and>
       metadata w2 = metadata w \<and>
       (\<forall>w3. run env w = Returned w3 \<longrightarrow>
          (\<exists>jf meta. w3 = w2\<lparr>json_files := json_files w @ [(jf, Dumped meta)]\<rparr>)) \<and>
       (\<forall>e w3. run env w = Raised e w3 \<longrightarrow>
          w3 = w2 \<or> (\<exists>jf. w3 = w2\<lparr>json_files := json_files w @ [(jf, Incomplete)]\<rparr>)) \<and>
       (\<forall>w3. run env w \<noteq> Blocked w3) \<and>
       (1900 \<le> year (clock env) \<and> year (clock env) \<le> 9999 \<and>
        metadata w ''framerate'' = Some fr \<and> metadata w ''version'' = Some v \<and>
        metadata w ''stims'' = Some st \<and> metadata w ''levels'' = Some lv \<and>
        int_of_item lv 0 = Inr a \<and> int_of_item lv 1 = Inr b \<and>
        json_file_name (filename w) = Inr jf \<and>
        open_raises env jf = None \<and> write_raises env jf = None \<and>
        json_encodable fr \<and> json_encodable v \<and> json_encodable st
        \<longrightarrow> (\<exists>w3. run env w = Returned w3)) \<and>
       (\<not> endswith (filename w) ''.tiff'' \<and> \<not> endswith (filename w) ''.tif''
        \<longrightarrow> (\<exists>e. run env w = Raised e w2))"
proof -
  from run_done [OF assms(1-4) assms(6)] assms(5)
  obtain w1 where run: "run env w =
        save_metadata env (filename w) (w1\<lparr>tiff_closed := tiff_closed w + 1\<rparr>)"
    and w1: "q w1 = post" "gets w1 = gets w + length pre + 1"
      "json_files w1 = json_files w" "metadata w1 = metadata w"
    by auto
  let ?w2 = "w1\<lparr>tiff_closed := tiff_closed w + 1\<rparr>"
  have w2: "q ?w2 = post" "gets ?w2 = gets w + length pre + 1"
    "tiff_closed ?w2 = tiff_closed w + 1" "json_files ?w2 = json_files w"
    "metadata ?w2 = metadata w"
    using w1 by simp_all
  have ret: "\<exists>jf meta. w3 = ?w2\<lparr>json_files := json_files w @ [(jf, Dumped meta)]\<rparr>"
    if "run env w = Returned w3" for w3
  proof -
    from that run have "save_metadata env (filename w) ?w2 = Returned w3" by simp
    from save_metadata_Returned [OF this] w2(4) show ?thesis by auto
  qed
  have rai: "w3 = ?w2 \<or> (\<exists>jf. w3 = ?w2\<lparr>json_files := json_files w @ [(jf, Incomplete)]\<rparr>)"
    if "run env w = Raised e w3" for e w3
  proof -
    from that run have "save_metadata env (filename w) ?w2 = Raised e w3" by simp
    from save_metadata_Raised [OF this] w2(4) show ?thesis by auto
  qed
  have blo: "run env w \<noteq> Blocked w3" for w3
    by (simp add: run save_metadata_not_Blocked)
  have complete: "\<exists>w3. run env w = Returned w3"
    if "1900 \<le> year (clock env) \<and> year (clock env) \<le> 9999 \<and>
        metadata w ''framerate'' = Some fr \<and> metadata w ''version'' = Some v \<and>
        metadata w ''stims'' = Some st \<and> metadata w ''levels'' = Some lv \<and>
        int_of_item lv 0 = Inr a \<and> int_of_item lv 1 = Inr b \<and>
        json_file_name (filename w) = Inr jf \<and>
        open_raises env jf = None \<and> write_raises env jf = None \<and>
        json_encodable fr \<and> json_encodable v \<and> json_encodable st"
  proof -
    from that have c: "1900 \<le> year (clock env)" "year (clock env) \<le> 9999"
        "metadata w ''framerate'' = Some fr" "metadata w ''version'' = Some v"
        "metadata w ''stims'' = Some st" "metadata w ''levels'' = Some lv"
        "int_of_item lv 0 = Inr a" "int_of_item lv 1 = Inr b"
        "json_file_name (filename w) = Inr jf"
        "open_raises env jf = None" "write_raises env jf = None"
        "json_encodable fr" "json_encodable v" "json_encodable st"
      by blast+
    have m: "metadata ?w2 ''framerate'' = Some fr" "metadata ?w2 ''version'' = Some v"
        "metadata ?w2 ''stims'' = Some st" "metadata ?w2 ''levels'' = Some lv"
      using c(3-6) w2(5) by simp_all
    from save_metadata_complete [OF c(1) c(2) m c(7-14)]
    show ?thesis by (simp add: run)
  qed
  have other: "\<exists>e. run env w = Raised e ?w2"
    if "\<not> endswith (filename w) ''.tiff'' \<and> \<not> endswith (filename w) ''.tif''"
    using that save_metadata_other_suffix [of "filename w" env ?w2] by (simp add: run)
  show ?thesis
    by (rule exI [of _ ?w2])
       (use run w2 ret rai blo complete other in \<open>intro conjI allI impI; blast\<close>)
qed

text \<open>
  The theorem on a writer with complete metadata and the file name \<^verbatim>\<open>out.tiff\<close>: the
  frame behind \<^verbatim>\<open>'done'\<close> stays in the queue, three items have been taken, the container
  has been closed once and the one record is in \<^verbatim>\<open>out.json\<close>.
\<close>

theorem done_is_terminal_witness:
  "\<exists>w2. run quiet (a_writer full_metadata
             [Frame black_frame, Text ''go'', Text ''done'', Frame white_frame])
          = Returned (w2\<lparr>json_files := [(''out.json'', Dumped full_record)]\<rparr>) \<and>
     q w2 = [Frame white_frame] \<and> gets w2 = 3 \<and> tiff_closed w2 = 1 \<and> json_files w2 = []"
proof -
  let ?w = "a_writer full_metadata [Frame black_frame, Text ''go'', Text ''done'', Frame white_frame]"
  have w: "write_flag ?w"
    "frames_of [Frame black_frame, Text ''go''] = [] \<or>
       (0 \<le> comp_lev ?w \<and> comp_lev ?w \<le> 9 \<and> (\<forall>n. save_raises quiet n = None))"
    "close_raises quiet = None"
    "q ?w = [Frame black_frame, Text ''go''] @ Text ''done'' # [Frame white_frame]"
    by (simp_all add: a_writer_def quiet_def)
  from done_is_terminal [OF passable_example quiet_no_interrupt w]
  obtain w2 where run: "run quiet ?w = save_metadata quiet (filename ?w) w2"
    and w2: "q w2 = [Frame white_frame]" "gets w2 = gets ?w + length [Frame black_frame, Text ''go''] + 1"
      "tiff_closed w2 = tiff_closed ?w + 1" "json_files w2 = json_files ?w"
      "metadata w2 = metadata ?w"
    by blast
  have md: "metadata w2 = full_metadata" using w2(5) by (simp add: a_writer_def)
  have fn: "filename ?w = ''out.tiff''" "json_files ?w = []" by (simp_all add: a_writer_def)
  have "run quiet ?w = Returned (w2\<lparr>json_files := [(''out.json'', Dumped full_record)]\<rparr>)"
    using save_metadata_full [OF md quiet_files(1-3)] w2(4) by (simp only: run fn append_Nil)
  then show ?thesis using w2 by (intro exI [of _ w2]) (simp add: a_writer_def)
qed

text \<open>
  Claim C2 as the specification states it fails.  With the file name \<^verbatim>\<open>out.dat\<close> and
  complete metadata, the writer that gets \<^verbatim>\<open>'done'\<close> closes the container and then
  \<^verbatim>\<open>save_metadata\<close> reaches its \<^verbatim>\<open>raise ValueError\<close>: no metadata record is written.  With
  metadata that lacks \<^verbatim>\<open>'version'\<close> (construction accepts it) the same happens with
  \<^verbatim>\<open>KeyError\<close>.
\<close>

theorem done_is_terminal_counterexample:
  "run quiet ((a_writer full_metadata [Text ''done''])\<lparr>filename := ''out.dat''\<rparr>) =
     Raised ValueError
       ((a_writer full_metadata [])\<lparr>filename := ''out.dat'', tiff_closed := 1, gets := 1\<rparr>) \<and>
   run quiet (a_writer bare_metadata [Text ''done'']) =
     Raised (KeyError ''version'') ((a_writer bare_metadata [])\<lparr>tiff_closed := 1, gets := 1\<rparr>)"
  by (simp add: run_def a_writer_def quiet_def bare_metadata_def full_metadata_def
      save_metadata_def getitem_def fromtimestamp_def strftime_Ymd_def strftime_HMS_def
      json_file_name_def endswith_def Let_def)

subsection \<open>Transient errors\<close>








end
